theory Spec2Isabelle
  imports Main
begin

section \<open>The process supervisor of jre\_launcher.cpp\<close>

text \<open>
  The launcher forks one child, forwards what the child writes into a pipe to its own
  standard output, and reaps the child. Everything it does is a system call, so the model
  has two parts: the program (the functions of the source, under their own names) and the
  part of the operating system the program talks to (one child process, one pipe). What
  the rest of the world does (the child writing or exiting, a signal arriving, another
  thread calling \<open>stopJvm\<close>, a system call failing) is an input: a schedule of
  events, placed at the points where the program can observe them.

  Logging (\<open>android_println\<close>, \<open>perror\<close>, \<open>fprintf\<close>) has no effect on the
  control flow and is left out.
\<close>

subsection \<open>Constants of the platform headers (Linux values)\<close>

abbreviation SIGINT :: int where "SIGINT \<equiv> 2"
abbreviation SIGKILL :: int where "SIGKILL \<equiv> 9"
abbreviation SIGPIPE :: int where "SIGPIPE \<equiv> 13"
abbreviation SIGTERM :: int where "SIGTERM \<equiv> 15"

abbreviation EINTR :: int where "EINTR \<equiv> 4"
abbreviation EIO :: int where "EIO \<equiv> 5"
abbreviation EAGAIN :: int where "EAGAIN \<equiv> 11"
abbreviation EWOULDBLOCK :: int where "EWOULDBLOCK \<equiv> 11"
abbreviation EPIPE :: int where "EPIPE \<equiv> 32"

subsection \<open>The state: the two globals, the kernel's view of the child, the pipe\<close>

text \<open>What \<open>waitpid\<close> stores in \<open>status\<close>: the child exited with a code, or a signal killed it.\<close>

datatype wstatus = Exited nat | Signaled nat

fun WIFSIGNALED :: "wstatus \<Rightarrow> bool" where
  "WIFSIGNALED (Signaled n) = True"
| "WIFSIGNALED (Exited c) = False"

text \<open>The exit status is the low eight bits of what the child passed to \<open>exit\<close>.\<close>

fun WEXITSTATUS :: "wstatus \<Rightarrow> int" where
  "WEXITSTATUS (Exited c) = int (c mod 256)"
| "WEXITSTATUS (Signaled n) = 0"

text \<open>
  The child in the kernel's process table: running, terminated and not yet waited for
  (a zombie, holding its status), or waited for (the entry is gone).
\<close>

datatype pstate = NoChild | Alive | Zombie wstatus | Reaped

text \<open>The system calls of the launching thread, in the order it makes them.\<close>

datatype syscall =
    SSigaction int
  | SPipe
  | SFcntl
  | SFork
  | SClose nat
  | SPoll int
  | SRead nat
  | SWrite string
  | SWaitpid int bool
  | SKill int int
  | SUsleep nat

text \<open>What the forked child does with \<open>argv\<close>: \<open>execvp(argv[0], argv)\<close>.\<close>

datatype child_image = Execvp "string option" "string list"

record state =
  child_pid :: int
  signal_received :: int
  kpid :: int
  proc :: pstate
  child_prog :: "child_image option"
  pipe_buf :: string
  writers_open :: bool
  rd_open :: bool
  wr_open :: bool
  out :: string
  calls :: "syscall list"
  delivered :: "(int \<times> int) list"

text \<open>
  \<open>child_pid\<close> and \<open>signal_received\<close> are the two globals of the source. \<open>kpid\<close>,
  \<open>proc\<close> and \<open>child_prog\<close> are the kernel's entry for the forked child. \<open>pipe_buf\<close>
  holds the bytes written into the pipe and not yet read; \<open>writers_open\<close> says that a
  process other than the launcher still has the write end open; \<open>rd_open\<close> and
  \<open>wr_open\<close> are the launcher's own descriptors \<open>pipefd[0]\<close> and \<open>pipefd[1]\<close>.
  \<open>out\<close> is what has reached the launcher's standard output. \<open>calls\<close> records the
  system calls of the launching thread; \<open>delivered\<close> records every signal that a
  \<open>kill\<close> of the program (from any thread or from the handler) delivered.
\<close>

definition log :: "syscall \<Rightarrow> state \<Rightarrow> state" where
  "log c s = s\<lparr>calls := calls s @ [c]\<rparr>"

subsection \<open>The system calls\<close>

fun exists_proc :: "pstate \<Rightarrow> bool" where
  "exists_proc Alive = True"
| "exists_proc (Zombie st) = True"
| "exists_proc NoChild = False"
| "exists_proc Reaped = False"

text \<open>
  \<open>kill(pid, sig)\<close> succeeds when the process exists (a zombie counts) and fails with
  \<open>ESRCH\<close> otherwise. What the signal does to the child is the child's business: it
  shows up later as an event, or never.
\<close>

definition sys_kill :: "int \<Rightarrow> int \<Rightarrow> state \<Rightarrow> int \<times> state" where
  "sys_kill pid sig s =
     (if pid = kpid s \<and> exists_proc (proc s)
      then (0, s\<lparr>delivered := delivered s @ [(pid, sig)]\<rparr>)
      else (-1, s))"

text \<open>
  \<open>waitpid(pid, &status, WNOHANG)\<close>: a zombie is reaped and its pid returned; a running
  child gives 0; a child that does not exist (any more) gives \<open>-1\<close> (\<open>ECHILD\<close>).
\<close>

definition waitpid_nohang :: "int \<Rightarrow> state \<Rightarrow> int \<times> state" where
  "waitpid_nohang pid s =
     (if pid \<noteq> kpid s then (-1, s)
      else (case proc s of
              Zombie st \<Rightarrow> (pid, s\<lparr>proc := Reaped\<rparr>)
            | Alive \<Rightarrow> (0, s)
            | NoChild \<Rightarrow> (-1, s)
            | Reaped \<Rightarrow> (-1, s)))"

text \<open>
  \<open>waitpid(pid, &status, 0)\<close>: as above, but on a running child the call does not
  return (\<open>None\<close>). The handlers are installed with \<open>SA_RESTART\<close>, so a signal does
  not make it fail with \<open>EINTR\<close>.
\<close>

definition waitpid_block :: "int \<Rightarrow> state \<Rightarrow> (int \<times> wstatus option \<times> state) option" where
  "waitpid_block pid s =
     (if pid \<noteq> kpid s then Some (-1, None, s)
      else (case proc s of
              Zombie st \<Rightarrow> Some (pid, Some st, s\<lparr>proc := Reaped\<rparr>)
            | Alive \<Rightarrow> None
            | NoChild \<Rightarrow> Some (-1, None, s)
            | Reaped \<Rightarrow> Some (-1, None, s)))"

definition sys_close :: "nat \<Rightarrow> state \<Rightarrow> state" where
  "sys_close i s =
     (if i = 0 then log (SClose 0) (s\<lparr>rd_open := False\<rparr>)
      else log (SClose i) (s\<lparr>wr_open := False\<rparr>))"

subsection \<open>The signal handler and stopJvm\<close>

definition signal_handler :: "int \<Rightarrow> state \<Rightarrow> state" where
  "signal_handler sig s =
     (let s1 = s\<lparr>signal_received := sig\<rparr>
      in if child_pid s1 > 0 then snd (sys_kill (child_pid s1) SIGTERM s1) else s1)"

definition stopJvm :: "state \<Rightarrow> int \<times> state" where
  "stopJvm s =
     (if child_pid s > 0 then
        (case sys_kill (child_pid s) SIGTERM s of
           (r, s1) \<Rightarrow> if r = 0 then (0, s1\<lparr>signal_received := SIGTERM\<rparr>) else (-1, s1))
      else (-1, s))"

subsection \<open>What the rest of the world does\<close>

text \<open>The two signals that \<open>setup_signal_handlers\<close> routes to \<open>signal_handler\<close>.\<close>

datatype caught = Interrupt | Terminate

fun signo :: "caught \<Rightarrow> int" where
  "signo Interrupt = SIGINT"
| "signo Terminate = SIGTERM"

datatype event =
    PipeWrite string
  | WriterClose
  | ChildExit nat
  | ChildKilled nat
  | Signal caught
  | StopCall

text \<open>
  \<open>PipeWrite\<close>: the child (or a process that inherited its output) writes bytes into the
  pipe. \<open>WriterClose\<close>: the last write end outside the launcher is closed.
  \<open>ChildExit\<close>, \<open>ChildKilled\<close>: the child terminates, with an exit code or by a signal.
  \<open>Signal\<close>: SIGINT or SIGTERM reaches the launcher and the handler runs.
  \<open>StopCall\<close>: another thread calls \<open>stopJvm\<close> (through \<open>nativeStopJvm\<close>).
\<close>

fun apply_event :: "event \<Rightarrow> state \<Rightarrow> state" where
  "apply_event (PipeWrite bs) s =
     (if writers_open s then s\<lparr>pipe_buf := pipe_buf s @ bs\<rparr> else s)"
| "apply_event WriterClose s = s\<lparr>writers_open := False\<rparr>"
| "apply_event (ChildExit c) s =
     (if proc s = Alive then s\<lparr>proc := Zombie (Exited c)\<rparr> else s)"
| "apply_event (ChildKilled n) s =
     (if proc s = Alive then s\<lparr>proc := Zombie (Signaled n)\<rparr> else s)"
| "apply_event (Signal c) s = signal_handler (signo c) s"
| "apply_event StopCall s = snd (stopJvm s)"

fun apply_events :: "event list \<Rightarrow> state \<Rightarrow> state" where
  "apply_events [] s = s"
| "apply_events (e # es) s = apply_events es (apply_event e s)"

subsection \<open>One iteration of the supervision loop\<close>

text \<open>
  What the world does around one iteration. \<open>pre\<close>: the events up to the return of
  \<open>poll\<close>. \<open>poll_err\<close>: \<open>poll\<close> fails with this \<open>errno\<close>. \<open>err_bit\<close>,
  \<open>spurious_in\<close>: \<open>poll\<close> reports \<open>POLLERR\<close>, or \<open>POLLIN\<close> with nothing to read.
  \<open>mid\<close>: the events after the first test of \<open>signal_received\<close> and before the next
  thing the loop observes. \<open>read_err\<close>: \<open>read\<close> fails with this \<open>errno\<close>.
  \<open>write_res\<close>: what \<open>write\<close> to the standard output does.
\<close>

datatype write_result = Written nat | WriteFailed int

record tick =
  pre :: "event list"
  poll_err :: "int option"
  err_bit :: bool
  spurious_in :: bool
  mid :: "event list"
  read_err :: "int option"
  write_res :: write_result

record revents =
  POLLIN :: bool
  POLLERR :: bool
  POLLHUP :: bool

text \<open>
  \<open>poll(fds, 1, 100)\<close> on the read end, as Linux answers for a pipe: \<open>POLLIN\<close> when
  the buffer holds bytes, \<open>POLLHUP\<close> when no write end is open any more; the return
  value is the number of descriptors with an answer (0 after the 100 ms when there is
  none), or \<open>-1\<close> with \<open>errno\<close>. The result is (return value, errno, revents).
\<close>

definition sys_poll :: "tick \<Rightarrow> state \<Rightarrow> int \<times> int \<times> revents" where
  "sys_poll t s =
     (let rv = \<lparr>POLLIN = (pipe_buf s \<noteq> [] \<or> spurious_in t),
                 POLLERR = err_bit t,
                 POLLHUP = (\<not> writers_open s \<and> \<not> wr_open s)\<rparr>
      in case poll_err t of
           Some e \<Rightarrow> (-1, e, rv)
         | None \<Rightarrow> (if POLLIN rv \<or> POLLERR rv \<or> POLLHUP rv then (1, 0, rv) else (0, 0, rv)))"

text \<open>
  \<open>read(pipefd[0], buffer, sizeof(buffer))\<close> with a buffer of 1024 bytes on the
  non-blocking read end: up to 1024 bytes from the front of the pipe; 0 at end of file
  (empty and no writer); \<open>EAGAIN\<close> when empty with a writer. The result is
  (return value, errno, the bytes now in \<open>buffer\<close>, state).
\<close>

definition sys_read :: "tick \<Rightarrow> state \<Rightarrow> int \<times> int \<times> string \<times> state" where
  "sys_read t s =
     (let s1 = log (SRead 1024) s
      in case read_err t of
           Some e \<Rightarrow> (-1, e, [], s1)
         | None \<Rightarrow>
             (if pipe_buf s1 = [] then
                (if writers_open s1 \<or> wr_open s1 then (-1, EAGAIN, [], s1) else (0, 0, [], s1))
              else (int (length (take 1024 (pipe_buf s1))), 0, take 1024 (pipe_buf s1),
                    s1\<lparr>pipe_buf := drop 1024 (pipe_buf s1)\<rparr>)))"

text \<open>
  \<open>write(STDOUT_FILENO, buffer, bytes_read)\<close>: the first \<open>n\<close> bytes reach the output
  and the call returns their number, or the call fails. The result is (return value,
  errno, state).
\<close>

definition sys_write :: "tick \<Rightarrow> string \<Rightarrow> state \<Rightarrow> int \<times> int \<times> state" where
  "sys_write t buf s =
     (let s1 = log (SWrite buf) s
      in case write_res t of
           Written n \<Rightarrow> (int (length (take n buf)), 0, s1\<lparr>out := out s1 @ take n buf\<rparr>)
         | WriteFailed e \<Rightarrow> (-1, e, s1))"

datatype ctl = Break state | Continue state

text \<open>The last test of the loop body (source lines 168 to 171).\<close>

definition hangup_check :: "revents \<Rightarrow> state \<Rightarrow> ctl" where
  "hangup_check rv s = (if POLLERR rv \<or> POLLHUP rv then Break s else Continue s)"

text \<open>The forwarding part of the loop body (source lines 149 to 171).\<close>

definition forward :: "tick \<Rightarrow> revents \<Rightarrow> state \<Rightarrow> ctl" where
  "forward t rv s =
     (if POLLIN rv then
        (case sys_read t s of
           (bytes_read, rerrno, buffer, s1) \<Rightarrow>
             if bytes_read > 0 then
               (case sys_write t buffer s1 of
                  (w, werrno, s2) \<Rightarrow>
                    if w = -1 then
                      (if werrno = EPIPE then Break s2 else hangup_check rv s2)
                    else hangup_check rv s2)
             else if bytes_read = 0 then Break s1
             else if bytes_read = -1 then
               (if rerrno \<noteq> EAGAIN \<and> rerrno \<noteq> EWOULDBLOCK then Break s1
                else hangup_check rv s1)
             else hangup_check rv s1)
      else hangup_check rv s)"

text \<open>The loop body (source lines 120 to 171).\<close>

definition loop_iter :: "int \<Rightarrow> tick \<Rightarrow> state \<Rightarrow> ctl" where
  "loop_iter pid t s =
     (let s1 = apply_events (pre t) (log (SPoll 100) s)
      in case sys_poll t s1 of
           (ret, errno, rv) \<Rightarrow>
             if signal_received s1 \<noteq> 0 then Break s1
             else
               (let s2 = apply_events (mid t) s1
                in if ret = -1 then
                     (if errno = EINTR then
                        (if signal_received s2 \<noteq> 0 then Break s2 else Continue s2)
                      else Break s2)
                   else if ret = 0 then
                     (case waitpid_nohang pid (log (SWaitpid pid True) s2) of
                        (result, s3) \<Rightarrow>
                          if result = pid then Break s3
                          else if result = -1 then Break s3
                          else Continue s3)
                   else forward t rv s2))"

text \<open>
  \<open>while (true)\<close>: the loop runs as long as the body says \<open>continue\<close>. A schedule
  that ends while the loop is still running gives \<open>None\<close>: the loop has not exited.
\<close>

fun supervision_loop :: "int \<Rightarrow> tick list \<Rightarrow> state \<Rightarrow> state option" where
  "supervision_loop pid [] s = None"
| "supervision_loop pid (t # ts) s =
     (case loop_iter pid t s of
        Break s1 \<Rightarrow> Some s1
      | Continue s1 \<Rightarrow> supervision_loop pid ts s1)"

subsection \<open>After the loop\<close>

abbreviation wait_timeout :: int where "wait_timeout \<equiv> 5000"

text \<open>
  The wait after SIGKILL (source lines 185 to 195). \<open>evs\<close> gives the events before each
  \<open>waitpid\<close>: those of the \<open>usleep\<close> before it. The result is the final \<open>waited\<close>
  and the state.
\<close>

function reap_loop :: "int \<Rightarrow> int \<Rightarrow> event list list \<Rightarrow> state \<Rightarrow> int \<times> state" where
  "reap_loop pid waited evs s =
     (if waited < wait_timeout then
        (case waitpid_nohang pid
                (log (SWaitpid pid True) (apply_events (case evs of [] \<Rightarrow> [] | e # _ \<Rightarrow> e) s)) of
           (result, s1) \<Rightarrow>
             if result = pid then (waited, s1)
             else if result = -1 then (waited, s1)
             else reap_loop pid (waited + 100) (tl evs) (log (SUsleep 100000) s1))
      else (waited, s))"
  by pat_completeness auto
termination
  by (relation "measure (\<lambda>(pid, waited, evs, s). nat (wait_timeout - waited))") auto

declare reap_loop.simps [simp del]

text \<open>
  The schedule of one launch. \<open>sa_fail\<close>: the signals for which \<open>sigaction\<close> fails.
  \<open>ev_setup\<close>: the events between the installation of the handlers (line 69) and the
  reset of the globals (line 74).
  \<open>ev_start\<close>: the events between the reset of the globals and \<open>pipe\<close>. \<open>pipe_ok\<close>,
  \<open>fork_ret\<close>: what \<open>pipe\<close> and \<open>fork\<close> do. \<open>ev_fork\<close>: the events between
  \<open>fork\<close> and the assignment to \<open>child_pid\<close>. \<open>ticks\<close>: one entry for each
  iteration of the loop. \<open>ev_close\<close>: the events between the exit of the loop and the
  test of \<open>signal_received\<close> at line 179. \<open>ev_reap\<close>: the events before each
  \<open>waitpid\<close> of the wait after SIGKILL. \<open>ev_block\<close>: the events until the blocking
  \<open>waitpid\<close> returns.
\<close>

record schedule =
  sa_fail :: "int list"
  ev_setup :: "event list"
  ev_start :: "event list"
  pipe_ok :: bool
  fork_ret :: int
  ev_fork :: "event list"
  ticks :: "tick list"
  ev_close :: "event list"
  ev_reap :: "event list list"
  ev_block :: "event list"

text \<open>Source lines 174 to 218. \<open>None\<close>: the blocking \<open>waitpid\<close> does not return.\<close>

definition shutdown :: "schedule \<Rightarrow> int \<Rightarrow> state \<Rightarrow> (int \<times> state) option" where
  "shutdown env pid s =
     (let s1 = apply_events (ev_close env) (sys_close 0 s)
      in if signal_received s1 \<noteq> 0 then
           (case sys_kill pid SIGKILL (log (SKill pid SIGKILL) s1) of
              (k, s2) \<Rightarrow>
                (case reap_loop pid 0 (ev_reap env) s2 of
                   (waited, s3) \<Rightarrow> Some (-1, s3\<lparr>child_pid := -1\<rparr>)))
         else
           (case waitpid_block pid (apply_events (ev_block env) (log (SWaitpid pid False) s1)) of
              None \<Rightarrow> None
            | Some (r, status, s2) \<Rightarrow>
                if r = -1 then Some (-1, s2\<lparr>child_pid := -1\<rparr>)
                else
                  (case status of
                     None \<Rightarrow> Some (-1, s2\<lparr>child_pid := -1\<rparr>)
                   | Some st \<Rightarrow>
                       if WIFSIGNALED st then Some (-1, s2\<lparr>child_pid := -1\<rparr>)
                       else Some (WEXITSTATUS st, s2\<lparr>child_pid := -1\<rparr>))))"

text \<open>The parent's side from the loop to the return (source lines 119 to 218).\<close>

definition supervise :: "schedule \<Rightarrow> int \<Rightarrow> state \<Rightarrow> (int \<times> state) option" where
  "supervise env pid s =
     (case supervision_loop pid (ticks env) s of
        None \<Rightarrow> None
      | Some s1 \<Rightarrow> shutdown env pid s1)"

subsection \<open>launchJvm\<close>

text \<open>Three \<open>sigaction\<close> calls, each of which can fail.\<close>

definition setup_signal_handlers :: "schedule \<Rightarrow> state \<Rightarrow> int \<times> state" where
  "setup_signal_handlers env s =
     (let s1 = log (SSigaction SIGINT) s
      in if SIGINT \<in> set (sa_fail env) then (-1, s1)
         else
           (let s2 = log (SSigaction SIGTERM) s1
            in if SIGTERM \<in> set (sa_fail env) then (-1, s2)
               else
                 (let s3 = log (SSigaction SIGPIPE) s2
                  in if SIGPIPE \<in> set (sa_fail env) then (-1, s3) else (0, s3))))"

text \<open>\<open>pipe(pipefd)\<close>: on success both ends are open in the launcher and the pipe is empty.\<close>

definition sys_pipe :: "schedule \<Rightarrow> state \<Rightarrow> int \<times> state" where
  "sys_pipe env s =
     (let s1 = log SPipe s
      in if pipe_ok env
         then (0, s1\<lparr>pipe_buf := [], writers_open := False, rd_open := True, wr_open := True\<rparr>)
         else (-1, s1))"

text \<open>
  The child's side of the fork (source lines 94 to 108) runs in the new process: it
  redirects its output into the pipe and calls \<open>execvp(argv[0], argv)\<close>; \<open>argv[0]\<close> of
  an empty vector is the terminating null pointer.
\<close>

definition child_side :: "string list \<Rightarrow> child_image" where
  "child_side argv = Execvp (case argv of [] \<Rightarrow> None | a # _ \<Rightarrow> Some a) argv"

text \<open>
  \<open>fork()\<close>: \<open>fork_ret\<close> is what it returns in the process the model follows. On
  success the kernel has a running child with that pid, which holds the write end open.
\<close>

definition sys_fork :: "schedule \<Rightarrow> string list \<Rightarrow> state \<Rightarrow> int \<times> state" where
  "sys_fork env argv s =
     (let s1 = log SFork s
      in if fork_ret env = -1 then (-1, s1)
         else (fork_ret env,
               s1\<lparr>kpid := fork_ret env, proc := Alive,
                  child_prog := Some (child_side argv), writers_open := True\<rparr>))"

text \<open>
  \<open>None\<close>: the call does not return. That is the case when the loop or the blocking
  \<open>waitpid\<close> does not, and in the forked child (\<open>pid == 0\<close>), where the function ends
  in \<open>execvp\<close> or \<open>exit\<close>.
\<close>

definition launchJvm :: "schedule \<Rightarrow> string list \<Rightarrow> state \<Rightarrow> (int \<times> state) option" where
  "launchJvm env argv s =
     (case setup_signal_handlers env s of
        (r, s1) \<Rightarrow>
          if r = -1 then Some (-1, s1)
          else
            (let s2 = apply_events (ev_start env)
                        ((apply_events (ev_setup env) s1)\<lparr>signal_received := 0, child_pid := -1\<rparr>)
             in case sys_pipe env s2 of
                  (p, s3) \<Rightarrow>
                    if p = -1 then Some (-1, s3)
                    else
                      (case sys_fork env argv (log SFcntl (log SFcntl s3)) of
                         (pid, s4) \<Rightarrow>
                           if pid = -1 then Some (-1, sys_close 1 (sys_close 0 s4))
                           else if pid = 0 then None
                           else
                             supervise env pid
                               (sys_close 1 ((apply_events (ev_fork env) s4)\<lparr>child_pid := pid\<rparr>)))))"

subsection \<open>nativeLaunchJvm\<close>

text \<open>
  An element of the Java array is null or a string; \<open>GetStringUTFChars\<close> gives the
  bytes of a string or fails (a null pointer).
\<close>

datatype jstring = JString string | JStringNoChars

fun GetStringUTFChars :: "jstring \<Rightarrow> string option" where
  "GetStringUTFChars (JString u) = Some u"
| "GetStringUTFChars JStringNoChars = None"

text \<open>The first loop of the source (lines 276 to 294); \<open>None\<close> is its \<open>return -1\<close>.\<close>

fun collect_args :: "jstring option list \<Rightarrow> string list \<Rightarrow> string list option" where
  "collect_args [] args = Some args"
| "collect_args (None # js) args = collect_args js (args @ [''''])"
| "collect_args (Some str # js) args =
     (case GetStringUTFChars str of
        None \<Rightarrow> None
      | Some utf_chars \<Rightarrow> collect_args js (args @ [utf_chars]))"

definition nativeLaunchJvm ::
  "schedule \<Rightarrow> jstring option list \<Rightarrow> state \<Rightarrow> (int \<times> state) option" where
  "nativeLaunchJvm env jargs s =
     (if int (length jargs) \<le> 0 then Some (-1, s)
      else
        (case collect_args jargs [] of
           None \<Rightarrow> Some (-1, s)
         | Some args \<Rightarrow> launchJvm env args s))"

subsection \<open>Concrete inputs and notions used in the statements\<close>

text \<open>
  The state of the process before the first launch (the initialisers of the two globals,
  no child, no pipe), an iteration in which nothing happens, and a launch in which every
  system call succeeds and \<open>fork\<close> returns the pid 42.
\<close>

definition initial :: state where
  "initial = \<lparr>child_pid = -1, signal_received = 0, kpid = 0, proc = NoChild, child_prog = None,
     pipe_buf = [], writers_open = False, rd_open = False, wr_open = False, out = [],
     calls = [], delivered = []\<rparr>"

definition quiet :: tick where
  "quiet = \<lparr>pre = [], poll_err = None, err_bit = False, spurious_in = False, mid = [],
     read_err = None, write_res = Written 1024\<rparr>"

definition plain :: schedule where
  "plain = \<lparr>sa_fail = [], ev_setup = [], ev_start = [], pipe_ok = True, fork_ret = 42, ev_fork = [],
     ticks = [], ev_close = [], ev_reap = [], ev_block = []\<rparr>"

text \<open>A launch in its loop: the child 42 is running and holds the write end.\<close>

definition running :: state where
  "running = initial\<lparr>child_pid := 42, kpid := 42, proc := Alive, writers_open := True,
     rd_open := True\<rparr>"

text \<open>
  The argument that a launch receives for an element of the Java array, when the
  conversion of every string succeeds.
\<close>

fun arg_of :: "jstring option \<Rightarrow> string" where
  "arg_of None = ''''"
| "arg_of (Some (JString u)) = u"
| "arg_of (Some JStringNoChars) = ''''"

text \<open>The state in which a loop body ended, whether it said \<open>break\<close> or \<open>continue\<close>.\<close>

fun ctl_state :: "ctl \<Rightarrow> state" where
  "ctl_state (Break s) = s"
| "ctl_state (Continue s) = s"

text \<open>The same launch after a successful \<open>stopJvm\<close>.\<close>

definition cancelled :: state where
  "cancelled = running\<lparr>signal_received := SIGTERM, delivered := [(42, SIGTERM)]\<rparr>"

text \<open>
  The child exits with code 7 while another process still holds the write end of the pipe
  (\<open>sh -c 'sleep 1000 & exit 7'\<close>): the first \<open>poll\<close> runs into its timeout.
\<close>

definition exit_held_open :: schedule where
  "exit_held_open = plain\<lparr>ticks := [quiet\<lparr>pre := [ChildExit 7]\<rparr>]\<rparr>"

text \<open>
  The child writes 1025 bytes, closes its output and exits with code 0, all before the
  first \<open>poll\<close> returns.
\<close>

definition big_output :: schedule where
  "big_output = plain\<lparr>ticks :=
     [quiet\<lparr>pre := [PipeWrite (replicate 1025 CHR ''a''), WriterClose, ChildExit 0]\<rparr>]\<rparr>"

text \<open>
  SIGTERM arrives between \<open>fork\<close> and the assignment to \<open>child_pid\<close>; the child
  dies of the SIGKILL of the shutdown before the first \<open>waitpid\<close>.
\<close>

definition signal_before_loop :: schedule where
  "signal_before_loop = plain\<lparr>ev_fork := [Signal Terminate], ticks := [quiet],
     ev_reap := [[ChildKilled 9]]\<rparr>"

text \<open>
  SIGINT arrives after the handlers are installed and before the flag is reset; the child
  then writes \<open>hello\<close>, closes its output and exits with code 0.
\<close>

definition lost_signal :: schedule where
  "lost_signal = plain\<lparr>ev_setup := [Signal Interrupt],
     ticks := [quiet\<lparr>pre := [PipeWrite ''hello'', WriterClose, ChildExit 0]\<rparr>]\<rparr>"

text \<open>The events in which the handler runs.\<close>

fun is_signal :: "event \<Rightarrow> bool" where
  "is_signal (Signal c) = True"
| "is_signal e = False"

section \<open>Properties\<close>

subsection \<open>What the system calls and the events leave alone\<close>

lemma log_fields [simp]:
  "child_pid (log c s) = child_pid s"
  "signal_received (log c s) = signal_received s"
  "kpid (log c s) = kpid s"
  "proc (log c s) = proc s"
  "child_prog (log c s) = child_prog s"
  "pipe_buf (log c s) = pipe_buf s"
  "writers_open (log c s) = writers_open s"
  "rd_open (log c s) = rd_open s"
  "wr_open (log c s) = wr_open s"
  "out (log c s) = out s"
  "delivered (log c s) = delivered s"
  "calls (log c s) = calls s @ [c]"
  by (simp_all add: log_def)

lemma sys_kill_fields [simp]:
  "child_pid (snd (sys_kill p g s)) = child_pid s"
  "signal_received (snd (sys_kill p g s)) = signal_received s"
  "kpid (snd (sys_kill p g s)) = kpid s"
  "proc (snd (sys_kill p g s)) = proc s"
  "child_prog (snd (sys_kill p g s)) = child_prog s"
  "pipe_buf (snd (sys_kill p g s)) = pipe_buf s"
  "writers_open (snd (sys_kill p g s)) = writers_open s"
  "rd_open (snd (sys_kill p g s)) = rd_open s"
  "wr_open (snd (sys_kill p g s)) = wr_open s"
  "out (snd (sys_kill p g s)) = out s"
  "calls (snd (sys_kill p g s)) = calls s"
  by (simp_all add: sys_kill_def)

lemma signal_handler_fields [simp]:
  "child_pid (signal_handler g s) = child_pid s"
  "signal_received (signal_handler g s) = g"
  "kpid (signal_handler g s) = kpid s"
  "proc (signal_handler g s) = proc s"
  "child_prog (signal_handler g s) = child_prog s"
  "pipe_buf (signal_handler g s) = pipe_buf s"
  "writers_open (signal_handler g s) = writers_open s"
  "rd_open (signal_handler g s) = rd_open s"
  "wr_open (signal_handler g s) = wr_open s"
  "out (signal_handler g s) = out s"
  "calls (signal_handler g s) = calls s"
  by (simp_all add: signal_handler_def Let_def)

lemma stopJvm_fields [simp]:
  "child_pid (snd (stopJvm s)) = child_pid s"
  "kpid (snd (stopJvm s)) = kpid s"
  "proc (snd (stopJvm s)) = proc s"
  "child_prog (snd (stopJvm s)) = child_prog s"
  "pipe_buf (snd (stopJvm s)) = pipe_buf s"
  "writers_open (snd (stopJvm s)) = writers_open s"
  "rd_open (snd (stopJvm s)) = rd_open s"
  "wr_open (snd (stopJvm s)) = wr_open s"
  "out (snd (stopJvm s)) = out s"
  "calls (snd (stopJvm s)) = calls s"
  by (simp_all add: stopJvm_def sys_kill_def)

lemma stopJvm_flag:
  "signal_received (snd (stopJvm s)) = (if fst (stopJvm s) = 0 then SIGTERM else signal_received s)"
  by (simp add: stopJvm_def sys_kill_def)

lemma apply_event_fields [simp]:
  "child_pid (apply_event e s) = child_pid s"
  "kpid (apply_event e s) = kpid s"
  "child_prog (apply_event e s) = child_prog s"
  "rd_open (apply_event e s) = rd_open s"
  "wr_open (apply_event e s) = wr_open s"
  "out (apply_event e s) = out s"
  "calls (apply_event e s) = calls s"
  by (cases e; simp)+

lemma apply_events_fields [simp]:
  "child_pid (apply_events es s) = child_pid s"
  "kpid (apply_events es s) = kpid s"
  "child_prog (apply_events es s) = child_prog s"
  "rd_open (apply_events es s) = rd_open s"
  "wr_open (apply_events es s) = wr_open s"
  "out (apply_events es s) = out s"
  "calls (apply_events es s) = calls s"
  by (induction es arbitrary: s; simp)+

lemma apply_event_flag_cases:
  "signal_received (apply_event e s) = signal_received s
   \<or> signal_received (apply_event e s) = SIGINT
   \<or> signal_received (apply_event e s) = SIGTERM"
proof (cases e)
  case (Signal c)
  then show ?thesis by (cases c) simp_all
next
  case StopCall
  then show ?thesis by (simp add: stopJvm_flag)
qed simp_all

lemma apply_event_requested:
  "signal_received s \<noteq> 0 \<Longrightarrow> signal_received (apply_event e s) \<noteq> 0"
  using apply_event_flag_cases [of e s] by auto

lemma apply_events_requested:
  "signal_received s \<noteq> 0 \<Longrightarrow> signal_received (apply_events es s) \<noteq> 0"
  by (induction es arbitrary: s) (simp_all add: apply_event_requested)


subsection \<open>stopJvm\<close>

text \<open>
  Claim C4. \<open>stopJvm\<close> returns 0 exactly when a child is active (\<open>child_pid > 0\<close>) and
  the \<open>kill\<close> of SIGTERM to it succeeds, which is when that child is in the process
  table; the state in which the call is made decides this, whatever the flag holds. On
  success the only changes are that SIGTERM has been delivered to the child and that
  \<open>signal_received\<close> is SIGTERM. In every other case it returns \<open>-1\<close> and nothing has
  changed. In no case is the child reaped (its entry in the process table is as before),
  and the function has no blocking call: it is total and its only system call is the one
  \<open>kill\<close>.
\<close>

theorem stopJvm_success_iff_delivered:
  "(fst (stopJvm s) = 0 \<longleftrightarrow>
      0 < child_pid s \<and> fst (sys_kill (child_pid s) SIGTERM s) = 0)
   \<and> (fst (sys_kill (child_pid s) SIGTERM s) = 0 \<longleftrightarrow>
      child_pid s = kpid s \<and> exists_proc (proc s))
   \<and> (fst (stopJvm s) = 0 \<longrightarrow>
      snd (stopJvm s)
        = s\<lparr>signal_received := SIGTERM, delivered := delivered s @ [(child_pid s, SIGTERM)]\<rparr>)
   \<and> (fst (stopJvm s) \<noteq> 0 \<longrightarrow> fst (stopJvm s) = -1 \<and> snd (stopJvm s) = s)
   \<and> (fst (stopJvm s) = 0 \<longleftrightarrow>
      0 < child_pid s \<and> delivered (snd (stopJvm s)) = delivered s @ [(child_pid s, SIGTERM)])
   \<and> (fst (stopJvm s) = 0 \<or> fst (stopJvm s) = -1)
   \<and> (fst (stopJvm s) = 0 \<longrightarrow> signal_received (snd (stopJvm s)) = SIGTERM)
   \<and> (fst (stopJvm s) = -1 \<longrightarrow> snd (stopJvm s) = s)
   \<and> proc (snd (stopJvm s)) = proc s
   \<and> calls (snd (stopJvm s)) = calls s"
  by (simp add: stopJvm_def sys_kill_def)

text \<open>
  With a running child the call succeeds, also when a cancellation is already pending and
  when the child is a zombie; with no child, or with a child that has been reaped already,
  it fails and changes nothing.
\<close>

theorem stopJvm_success_iff_delivered_witness:
  "stopJvm running = (0, running\<lparr>signal_received := SIGTERM, delivered := [(42, SIGTERM)]\<rparr>)
   \<and> stopJvm cancelled = (0, cancelled\<lparr>delivered := [(42, SIGTERM), (42, SIGTERM)]\<rparr>)
   \<and> stopJvm (running\<lparr>signal_received := SIGINT, proc := Zombie (Exited 0)\<rparr>)
       = (0, running\<lparr>signal_received := SIGTERM, proc := Zombie (Exited 0),
               delivered := [(42, SIGTERM)]\<rparr>)
   \<and> stopJvm initial = (-1, initial)
   \<and> stopJvm (running\<lparr>proc := Reaped\<rparr>) = (-1, running\<lparr>proc := Reaped\<rparr>)"
proof -
  have a: "0 < child_pid running" "child_pid running = kpid running"
    "exists_proc (proc running)"
    by (simp_all add: running_def initial_def)
  have b: "0 < child_pid cancelled" "child_pid cancelled = kpid cancelled"
    "exists_proc (proc cancelled)"
    by (simp_all add: cancelled_def running_def initial_def)
  from a stopJvm_success_iff_delivered [of running]
  have 1: "fst (stopJvm running) = 0" by simp
  from b stopJvm_success_iff_delivered [of cancelled]
  have 2: "fst (stopJvm cancelled) = 0" by simp
  have 3: "\<not> 0 < child_pid initial" by (simp add: initial_def)
  with stopJvm_success_iff_delivered [of initial]
  have 4: "stopJvm initial = (-1, initial)"
    by (simp add: prod_eq_iff)
  from 1 stopJvm_success_iff_delivered [of running]
  have 5: "stopJvm running = (0, running\<lparr>signal_received := SIGTERM, delivered := [(42, SIGTERM)]\<rparr>)"
    by (simp add: prod_eq_iff running_def initial_def)
  from 2 stopJvm_success_iff_delivered [of cancelled]
  have 6: "stopJvm cancelled = (0, cancelled\<lparr>delivered := [(42, SIGTERM), (42, SIGTERM)]\<rparr>)"
    by (simp add: prod_eq_iff cancelled_def running_def initial_def)
  have 7: "stopJvm (running\<lparr>signal_received := SIGINT, proc := Zombie (Exited 0)\<rparr>)
       = (0, running\<lparr>signal_received := SIGTERM, proc := Zombie (Exited 0),
               delivered := [(42, SIGTERM)]\<rparr>)"
    "stopJvm (running\<lparr>proc := Reaped\<rparr>) = (-1, running\<lparr>proc := Reaped\<rparr>)"
    by (simp_all add: stopJvm_def sys_kill_def running_def initial_def)
  from 4 5 6 7 show ?thesis by simp
qed

subsection \<open>nativeLaunchJvm\<close>

lemma collect_args_eq:
  "collect_args js acc =
     (if Some JStringNoChars \<in> set js then None else Some (acc @ map arg_of js))"
proof (induction js arbitrary: acc)
  case Nil
  then show ?case by simp
next
  case (Cons j js)
  show ?case
  proof (cases j)
    case None
    then show ?thesis by (simp add: Cons.IH)
  next
    case (Some str)
    then show ?thesis by (cases str) (simp_all add: Cons.IH)
  qed
qed

text \<open>
  Claim C10. A null element of the argument array does not make \<open>nativeLaunchJvm\<close>
  fail: the launch goes on with the empty string in its place. The call is rejected with
  \<open>-1\<close>, before anything is launched and with no change of state, only for an empty
  array or when the conversion of a string fails.
\<close>

theorem nativeLaunchJvm_null_is_empty_string:
  "nativeLaunchJvm env jargs s =
     (if jargs = [] \<or> Some JStringNoChars \<in> set jargs then Some (-1, s)
      else launchJvm env (map arg_of jargs) s)"
  by (simp add: nativeLaunchJvm_def collect_args_eq)

text \<open>Arrays with a null element, the empty array, and an array with a failing string.\<close>

theorem nativeLaunchJvm_null_is_empty_string_witness:
  "nativeLaunchJvm plain [Some (JString ''java''), None, Some (JString ''-version'')] initial
     = launchJvm plain [''java'', '''', ''-version''] initial
   \<and> nativeLaunchJvm plain [None] initial = launchJvm plain [''''] initial
   \<and> nativeLaunchJvm plain [] initial = Some (-1, initial)
   \<and> nativeLaunchJvm plain [None, Some JStringNoChars] initial = Some (-1, initial)"
  using nativeLaunchJvm_null_is_empty_string [of plain "[Some (JString ''java''), None, Some (JString ''-version'')]" initial]
    nativeLaunchJvm_null_is_empty_string [of plain "[None]" initial]
    nativeLaunchJvm_null_is_empty_string [of plain "[]" initial]
    nativeLaunchJvm_null_is_empty_string [of plain "[None, Some JStringNoChars]" initial]
  by simp

subsection \<open>The wait after SIGKILL\<close>

lemma waitpid_nohang_fields [simp]:
  "child_pid (snd (waitpid_nohang p s)) = child_pid s"
  "signal_received (snd (waitpid_nohang p s)) = signal_received s"
  "kpid (snd (waitpid_nohang p s)) = kpid s"
  "pipe_buf (snd (waitpid_nohang p s)) = pipe_buf s"
  "out (snd (waitpid_nohang p s)) = out s"
  "calls (snd (waitpid_nohang p s)) = calls s"
  by (simp_all add: waitpid_nohang_def split: pstate.splits)

lemma reap_loop_trace:
  "\<exists>k rest. k \<le> nat ((wait_timeout - waited + 99) div 100)
     \<and> (rest = [] \<or> rest = [SWaitpid pid True])
     \<and> calls (snd (reap_loop pid waited evs s))
         = calls s @ concat (replicate k [SWaitpid pid True, SUsleep 100000]) @ rest
     \<and> child_pid (snd (reap_loop pid waited evs s)) = child_pid s"
proof (induction pid waited evs s rule: reap_loop.induct)
  case (1 pid waited evs s)
  let ?s0 = "log (SWaitpid pid True) (apply_events (case evs of [] \<Rightarrow> [] | e # _ \<Rightarrow> e) s)"
  obtain result s1 where w: "waitpid_nohang pid ?s0 = (result, s1)"
    by (cases "waitpid_nohang pid ?s0")
  have s1: "calls s1 = calls s @ [SWaitpid pid True]" "child_pid s1 = child_pid s"
    using waitpid_nohang_fields(6) [of pid ?s0] waitpid_nohang_fields(1) [of pid ?s0] w by simp_all
  show ?case
  proof (cases "waited < wait_timeout")
    case False
    then have "reap_loop pid waited evs s = (waited, s)"
      by (simp add: reap_loop.simps [of pid waited evs s])
    then show ?thesis
      by (intro exI [of _ 0] exI [of _ "[]"]) simp
  next
    case True
    show ?thesis
    proof (cases "result = pid \<or> result = -1")
      case stop: True
      with True w have "reap_loop pid waited evs s = (waited, s1)"
        by (auto simp add: reap_loop.simps [of pid waited evs s])
      with s1 show ?thesis
        by (intro exI [of _ 0] exI [of _ "[SWaitpid pid True]"]) simp
    next
      case go: False
      let ?s2 = "log (SUsleep 100000) s1"
      from True w go have eq: "reap_loop pid waited evs s = reap_loop pid (waited + 100) (tl evs) ?s2"
        by (simp add: reap_loop.simps [of pid waited evs s])
      from go have "result \<noteq> pid" "result \<noteq> -1" by simp_all
      from "1.IH" [OF True w [symmetric] this]
      obtain k rest where k: "k \<le> nat ((wait_timeout - (waited + 100) + 99) div 100)"
        and rest: "rest = [] \<or> rest = [SWaitpid pid True]"
        and tr: "calls (snd (reap_loop pid (waited + 100) (tl evs) ?s2))
                  = calls ?s2 @ concat (replicate k [SWaitpid pid True, SUsleep 100000]) @ rest"
        and cp: "child_pid (snd (reap_loop pid (waited + 100) (tl evs) ?s2)) = child_pid ?s2"
        by blast
      from k True have "Suc k \<le> nat ((wait_timeout - waited + 99) div 100)" by linarith
      moreover from tr s1 have "calls (snd (reap_loop pid waited evs s))
          = calls s @ concat (replicate (Suc k) [SWaitpid pid True, SUsleep 100000]) @ rest"
        by (simp add: eq)
      moreover from cp s1 have "child_pid (snd (reap_loop pid waited evs s)) = child_pid s"
        by (simp add: eq)
      ultimately show ?thesis using rest by blast
    qed
  qed
qed

text \<open>
  What the child's entry in the process table is after some events depends only on what
  it was before. The loop polls as long as the child is running and sleeps after each
  such poll; it stops at the first poll that finds the child gone, or when 5000 ms of
  sleeps have passed.
\<close>

lemma apply_event_proc_cong:
  "proc s = proc s' \<Longrightarrow> proc (apply_event e s) = proc (apply_event e s')"
  by (cases e) simp_all

lemma apply_events_proc_cong:
  "proc s = proc s' \<Longrightarrow> proc (apply_events es s) = proc (apply_events es s')"
proof (induction es arbitrary: s s')
  case Nil
  then show ?case by simp
next
  case (Cons e es)
  from Cons.prems have "proc (apply_event e s) = proc (apply_event e s')"
    by (rule apply_event_proc_cong)
  then have "proc (apply_events es (apply_event e s)) = proc (apply_events es (apply_event e s'))"
    by (rule Cons.IH)
  then show ?case by simp
qed

lemma apply_events_append:
  "apply_events (es @ fs) s = apply_events fs (apply_events es s)"
  by (induction es arbitrary: s) simp_all

lemma concat_take_Suc:
  "concat (take (Suc j) evs) = (case evs of [] \<Rightarrow> [] | e # _ \<Rightarrow> e) @ concat (take j (tl evs))"
  by (cases evs) simp_all

lemma waitpid_nohang_result:
  "fst (waitpid_nohang pid s) = (if pid = kpid s \<and> proc s = Alive then 0
      else if pid = kpid s \<and> exists_proc (proc s) then pid else -1)"
  by (simp add: waitpid_nohang_def split: pstate.splits)

lemma waitpid_nohang_alive:
  "pid = kpid s \<Longrightarrow> proc s = Alive \<Longrightarrow> waitpid_nohang pid s = (0, s)"
  by (simp add: waitpid_nohang_def)

lemma reap_loop_exact:
  assumes "pid \<noteq> 0"
  shows "\<exists>k rest.
       calls (snd (reap_loop pid waited evs s))
         = calls s @ concat (replicate k [SWaitpid pid True, SUsleep 100000]) @ rest
     \<and> k \<le> nat ((wait_timeout - waited + 99) div 100)
     \<and> (\<forall>j<k. pid = kpid s \<and> proc (apply_events (concat (take (Suc j) evs)) s) = Alive)
     \<and> (if k < nat ((wait_timeout - waited + 99) div 100)
         then rest = [SWaitpid pid True]
              \<and> \<not> (pid = kpid s \<and> proc (apply_events (concat (take (Suc k) evs)) s) = Alive)
         else rest = [])"
  using assms
proof (induction pid waited evs s rule: reap_loop.induct)
  case (1 pid waited evs s)
  let ?e0 = "case evs of [] \<Rightarrow> [] | e # _ \<Rightarrow> e"
  let ?s0 = "log (SWaitpid pid True) (apply_events ?e0 s)"
  let ?n = "nat ((wait_timeout - waited + 99) div 100)"
  let ?W = "SWaitpid pid True"
  let ?U = "SUsleep 100000"
  obtain result s1 where w: "waitpid_nohang pid ?s0 = (result, s1)"
    by (cases "waitpid_nohang pid ?s0")
  have s1: "calls s1 = calls s @ [?W]"
    using waitpid_nohang_fields(6) [of pid ?s0] w by simp
  have take1: "concat (take (Suc 0) evs) = ?e0"
    by (simp add: concat_take_Suc)
  show ?case
  proof (cases "waited < wait_timeout")
    case False
    then have "reap_loop pid waited evs s = (waited, s)"
      by (simp add: reap_loop.simps [of pid waited evs s])
    moreover from False have "?n = 0" by simp
    ultimately show ?thesis
      by (intro exI [of _ 0] exI [of _ "[]"]) simp
  next
    case True
    then have npos: "0 < ?n" by simp
    show ?thesis
    proof (cases "pid = kpid s \<and> proc (apply_events ?e0 s) = Alive")
      case gone: False
      then have "result = pid \<or> result = -1"
        using waitpid_nohang_result [of pid ?s0] w by (auto split: if_splits)
      with True w have "reap_loop pid waited evs s = (waited, s1)"
        by (auto simp add: reap_loop.simps [of pid waited evs s])
      with s1 npos gone take1 show ?thesis
        by (intro exI [of _ 0] exI [of _ "[?W]"]) simp
    next
      case alive: True
      then have "waitpid_nohang pid ?s0 = (0, ?s0)"
        by (simp add: waitpid_nohang_alive)
      with w have r: "result = 0" "s1 = ?s0" by simp_all
      let ?s2 = "log ?U s1"
      from r "1.prems" have ne: "result \<noteq> pid" "result \<noteq> -1" by simp_all
      from True w ne have eq: "reap_loop pid waited evs s = reap_loop pid (waited + 100) (tl evs) ?s2"
        by (simp add: reap_loop.simps [of pid waited evs s])
      let ?m = "nat ((wait_timeout - (waited + 100) + 99) div 100)"
      from True have nm: "?n = Suc ?m" by linarith
      have pr: "proc (apply_events (concat (take (Suc j) (tl evs))) ?s2)
          = proc (apply_events (concat (take (Suc (Suc j)) evs)) s)" for j
      proof -
        have "proc ?s2 = proc (apply_events ?e0 s)" by (simp add: r)
        then have "proc (apply_events (concat (take (Suc j) (tl evs))) ?s2)
            = proc (apply_events (concat (take (Suc j) (tl evs))) (apply_events ?e0 s))"
          by (rule apply_events_proc_cong)
        also have "\<dots> = proc (apply_events (concat (take (Suc (Suc j)) evs)) s)"
          by (simp add: concat_take_Suc [of "Suc j" evs] apply_events_append)
        finally show ?thesis .
      qed
      have kp: "kpid ?s2 = kpid s" by (simp add: r)
      from "1.IH" [OF True w [symmetric] ne "1.prems"]
      obtain k rest where kr: "calls (snd (reap_loop pid (waited + 100) (tl evs) ?s2))
                  = calls ?s2 @ concat (replicate k [?W, ?U]) @ rest
        \<and> k \<le> ?m
        \<and> (\<forall>j<k. pid = kpid ?s2 \<and> proc (apply_events (concat (take (Suc j) (tl evs))) ?s2) = Alive)
        \<and> (if k < ?m
           then rest = [?W]
              \<and> \<not> (pid = kpid ?s2 \<and> proc (apply_events (concat (take (Suc k) (tl evs))) ?s2) = Alive)
           else rest = [])"
        by (elim exE) (rule that)
      note tr = kr [THEN conjunct1]
        and k = kr [THEN conjunct2, THEN conjunct1]
        and run = kr [THEN conjunct2, THEN conjunct2, THEN conjunct1]
        and fin = kr [THEN conjunct2, THEN conjunct2, THEN conjunct2]
      have 1: "calls (snd (reap_loop pid waited evs s))
          = calls s @ concat (replicate (Suc k) [?W, ?U]) @ rest"
        using tr s1 by (simp add: eq)
      have 2: "Suc k \<le> ?n" using k nm by simp
      have 3: "\<forall>j<Suc k. pid = kpid s \<and> proc (apply_events (concat (take (Suc j) evs)) s) = Alive"
      proof (intro allI impI)
        fix j assume j: "j < Suc k"
        show "pid = kpid s \<and> proc (apply_events (concat (take (Suc j) evs)) s) = Alive"
        proof (cases j)
          case 0
          with alive take1 show ?thesis by simp
        next
          case (Suc i)
          with j have "i < k" by simp
          with run have "pid = kpid ?s2 \<and> proc (apply_events (concat (take (Suc i) (tl evs))) ?s2) = Alive"
            by blast
          with Suc show ?thesis by (simp only: pr kp)
        qed
      qed
      have 4: "if Suc k < ?n
         then rest = [?W]
              \<and> \<not> (pid = kpid s \<and> proc (apply_events (concat (take (Suc (Suc k)) evs)) s) = Alive)
         else rest = []"
      proof (cases "k < ?m")
        case True
        with fin have "rest = [?W]"
          and "\<not> (pid = kpid ?s2 \<and> proc (apply_events (concat (take (Suc k) (tl evs))) ?s2) = Alive)"
          by simp_all
        then have "rest = [?W]
              \<and> \<not> (pid = kpid s \<and> proc (apply_events (concat (take (Suc (Suc k)) evs)) s) = Alive)"
          by (simp only: pr kp) simp
        moreover from True nm have "Suc k < ?n" by simp
        ultimately show ?thesis by simp
      next
        case False
        with fin have "rest = []" by simp
        moreover from False nm have "\<not> Suc k < ?n" by simp
        ultimately show ?thesis by simp
      qed
      show ?thesis
        by (rule exI [of _ "Suc k"], rule exI [of _ rest], intro conjI)
          (rule 1, rule 2, rule 3, rule 4)
    qed
  qed
qed

subsection \<open>Shutdown after a cancellation\<close>

lemma sys_close_fields [simp]:
  "child_pid (sys_close i s) = child_pid s"
  "signal_received (sys_close i s) = signal_received s"
  "kpid (sys_close i s) = kpid s"
  "proc (sys_close i s) = proc s"
  "child_prog (sys_close i s) = child_prog s"
  "pipe_buf (sys_close i s) = pipe_buf s"
  "out (sys_close i s) = out s"
  "calls (sys_close i s) = calls s @ [SClose i]"
  by (simp_all add: sys_close_def)

lemma shutdown_after_cancel:
  assumes "signal_received s \<noteq> 0"
  shows "\<exists>s' k rest.
           shutdown env pid s = Some (-1, s')
         \<and> child_pid s' = -1
         \<and> k \<le> 50 \<and> (rest = [] \<or> rest = [SWaitpid pid True])
         \<and> calls s' = calls s @ [SClose 0, SKill pid SIGKILL]
              @ concat (replicate k [SWaitpid pid True, SUsleep 100000]) @ rest"
proof -
  let ?s1 = "apply_events (ev_close env) (sys_close 0 s)"
  let ?s2 = "snd (sys_kill pid SIGKILL (log (SKill pid SIGKILL) ?s1))"
  let ?s3 = "snd (reap_loop pid 0 (ev_reap env) ?s2)"
  from assms have flag: "signal_received ?s1 \<noteq> 0"
    by (simp add: apply_events_requested)
  then have ret: "shutdown env pid s = Some (-1, ?s3\<lparr>child_pid := -1\<rparr>)"
    by (simp add: shutdown_def Let_def split: prod.splits)
  from reap_loop_trace [of 0 pid "ev_reap env" ?s2]
  obtain k rest where "k \<le> 50" "rest = [] \<or> rest = [SWaitpid pid True]"
    and "calls ?s3 = calls ?s2 @ concat (replicate k [SWaitpid pid True, SUsleep 100000]) @ rest"
    by auto
  with ret show ?thesis
    by (intro exI [of _ "?s3\<lparr>child_pid := -1\<rparr>"] exI [of _ k] exI [of _ rest]) simp
qed

lemma shutdown_after_cancel_exact:
  assumes "signal_received s \<noteq> 0" and "pid \<noteq> 0"
  shows "\<exists>s' k rest.
           shutdown env pid s = Some (-1, s')
         \<and> child_pid s' = -1
         \<and> calls s' = calls s @ [SClose 0, SKill pid SIGKILL]
              @ concat (replicate k [SWaitpid pid True, SUsleep 100000]) @ rest
         \<and> k \<le> 50
         \<and> (\<forall>j<k. pid = kpid s
                \<and> proc (apply_events (ev_close env @ concat (take (Suc j) (ev_reap env))) s) = Alive)
         \<and> (if k < 50
             then rest = [SWaitpid pid True]
                  \<and> \<not> (pid = kpid s
                         \<and> proc (apply_events (ev_close env @ concat (take (Suc k) (ev_reap env))) s)
                             = Alive)
             else rest = [])"
proof -
  let ?s1 = "apply_events (ev_close env) (sys_close 0 s)"
  let ?s2 = "snd (sys_kill pid SIGKILL (log (SKill pid SIGKILL) ?s1))"
  let ?s3 = "snd (reap_loop pid 0 (ev_reap env) ?s2)"
  let ?W = "SWaitpid pid True"
  let ?U = "SUsleep 100000"
  from assms(1) have flag: "signal_received ?s1 \<noteq> 0"
    by (simp add: apply_events_requested)
  then have ret: "shutdown env pid s = Some (-1, ?s3\<lparr>child_pid := -1\<rparr>)"
    by (simp add: shutdown_def Let_def split: prod.splits)
  have n: "nat ((wait_timeout - 0 + 99) div 100) = 50" by simp
  have kp: "kpid ?s2 = kpid s" by simp
  have pr: "proc (apply_events es ?s2) = proc (apply_events (ev_close env @ es) s)" for es
  proof -
    have "proc (sys_close 0 s) = proc s" by simp
    then have "proc ?s1 = proc (apply_events (ev_close env) s)"
      by (rule apply_events_proc_cong)
    then have "proc ?s2 = proc (apply_events (ev_close env) s)" by simp
    then have "proc (apply_events es ?s2) = proc (apply_events es (apply_events (ev_close env) s))"
      by (rule apply_events_proc_cong)
    then show ?thesis by (simp only: apply_events_append)
  qed
  from reap_loop_exact [OF assms(2), of 0 "ev_reap env" ?s2]
  obtain k rest where kr: "calls ?s3 = calls ?s2 @ concat (replicate k [?W, ?U]) @ rest
     \<and> k \<le> nat ((wait_timeout - 0 + 99) div 100)
     \<and> (\<forall>j<k. pid = kpid ?s2 \<and> proc (apply_events (concat (take (Suc j) (ev_reap env))) ?s2) = Alive)
     \<and> (if k < nat ((wait_timeout - 0 + 99) div 100)
         then rest = [?W]
              \<and> \<not> (pid = kpid ?s2 \<and> proc (apply_events (concat (take (Suc k) (ev_reap env))) ?s2) = Alive)
         else rest = [])"
    by (elim exE) (rule that)
  have 1: "calls (?s3\<lparr>child_pid := -1\<rparr>) = calls s @ [SClose 0, SKill pid SIGKILL]
              @ concat (replicate k [?W, ?U]) @ rest"
    using kr [THEN conjunct1] by simp
  have 2: "k \<le> 50"
    using kr [THEN conjunct2, THEN conjunct1] by (simp only: n)
  have 3: "\<forall>j<k. pid = kpid s
                \<and> proc (apply_events (ev_close env @ concat (take (Suc j) (ev_reap env))) s) = Alive"
    using kr [THEN conjunct2, THEN conjunct2, THEN conjunct1] by (simp only: pr kp)
  have 4: "if k < 50
             then rest = [?W]
                  \<and> \<not> (pid = kpid s
                         \<and> proc (apply_events (ev_close env @ concat (take (Suc k) (ev_reap env))) s)
                             = Alive)
             else rest = []"
    using kr [THEN conjunct2, THEN conjunct2, THEN conjunct2] by (simp only: pr kp n)
  have 5: "child_pid (?s3\<lparr>child_pid := -1\<rparr>) = -1" by simp
  show ?thesis
    by (rule exI [of _ "?s3\<lparr>child_pid := -1\<rparr>"], rule exI [of _ k], rule exI [of _ rest],
        intro conjI) (rule ret, rule 5, rule 1, rule 2, rule 3, rule 4)
qed

text \<open>
  Claim C3. When \<open>signal_received\<close> is set in the state in which the loop exits, the
  launch closes the read end, sends SIGKILL to the child without any further test, and
  then polls with \<open>waitpid(WNOHANG)\<close>: as long as a poll finds the child still running
  it sleeps 100000 microseconds and polls again, and it stops at the first poll that finds
  the child gone (reaped by this poll, or not there) or after 50 sleeps, 5000 ms in all.
  It then sets \<open>child_pid\<close> to \<open>-1\<close> and returns \<open>-1\<close>, whatever the state of the
  child was. Whether the child is running at a poll is a matter of the events up to that
  poll; \<open>pid\<close> is what \<open>fork\<close> returned to the parent, which is not 0.
\<close>

theorem cancelled_launch_kills_and_fails:
  assumes "supervision_loop pid (ticks env) s = Some s1"
    and "signal_received s1 \<noteq> 0"
  shows "\<exists>s' k rest.
           supervise env pid s = Some (-1, s')
         \<and> child_pid s' = -1
         \<and> k \<le> 50 \<and> (rest = [] \<or> rest = [SWaitpid pid True])
         \<and> calls s' = calls s1 @ [SClose 0, SKill pid SIGKILL]
              @ concat (replicate k [SWaitpid pid True, SUsleep 100000]) @ rest
         \<and> (pid \<noteq> 0 \<longrightarrow>
              (\<forall>j<k. pid = kpid s1
                 \<and> proc (apply_events (ev_close env @ concat (take (Suc j) (ev_reap env))) s1) = Alive)
            \<and> (if k < 50
                then rest = [SWaitpid pid True]
                     \<and> \<not> (pid = kpid s1
                            \<and> proc (apply_events (ev_close env @ concat (take (Suc k) (ev_reap env))) s1)
                                = Alive)
                else rest = []))"
proof (cases "pid = 0")
  case True
  from shutdown_after_cancel [OF assms(2), of env pid]
  obtain s' k rest where "shutdown env pid s1 = Some (-1, s') \<and> child_pid s' = -1
         \<and> k \<le> 50 \<and> (rest = [] \<or> rest = [SWaitpid pid True])
         \<and> calls s' = calls s1 @ [SClose 0, SKill pid SIGKILL]
              @ concat (replicate k [SWaitpid pid True, SUsleep 100000]) @ rest"
    by (elim exE) (rule that)
  with True assms(1) show ?thesis
    by (intro exI [of _ s'] exI [of _ k] exI [of _ rest]) (simp add: supervise_def)
next
  case False
  from shutdown_after_cancel_exact [OF assms(2) False, of env]
  obtain s' k rest where kr: "shutdown env pid s1 = Some (-1, s')
         \<and> child_pid s' = -1
         \<and> calls s' = calls s1 @ [SClose 0, SKill pid SIGKILL]
              @ concat (replicate k [SWaitpid pid True, SUsleep 100000]) @ rest
         \<and> k \<le> 50
         \<and> (\<forall>j<k. pid = kpid s1
                \<and> proc (apply_events (ev_close env @ concat (take (Suc j) (ev_reap env))) s1) = Alive)
         \<and> (if k < 50
             then rest = [SWaitpid pid True]
                  \<and> \<not> (pid = kpid s1
                         \<and> proc (apply_events (ev_close env @ concat (take (Suc k) (ev_reap env))) s1)
                             = Alive)
             else rest = [])"
    by (elim exE) (rule that)
  have sup: "supervise env pid s = Some (-1, s')"
    using kr [THEN conjunct1] assms(1) by (simp add: supervise_def)
  have fin: "if k < 50
             then rest = [SWaitpid pid True]
                  \<and> \<not> (pid = kpid s1
                         \<and> proc (apply_events (ev_close env @ concat (take (Suc k) (ev_reap env))) s1)
                             = Alive)
             else rest = []"
    by (rule kr [THEN conjunct2, THEN conjunct2, THEN conjunct2, THEN conjunct2, THEN conjunct2])
  then have rest: "rest = [] \<or> rest = [SWaitpid pid True]"
    by (cases "k < 50") simp_all
  show ?thesis
    by (rule exI [of _ s'], rule exI [of _ k], rule exI [of _ rest], intro conjI impI)
      (rule sup, rule kr [THEN conjunct2, THEN conjunct1],
       rule kr [THEN conjunct2, THEN conjunct2, THEN conjunct2, THEN conjunct1],
       rule rest,
       rule kr [THEN conjunct2, THEN conjunct2, THEN conjunct1],
       rule kr [THEN conjunct2, THEN conjunct2, THEN conjunct2, THEN conjunct2, THEN conjunct1],
       rule fin)
qed

text \<open>
  A call of \<open>stopJvm\<close> before \<open>poll\<close> returns, with a child that is still running at
  the first two polls after SIGKILL and dead at the third; and the same with a child that
  had exited with code 0 before the call: the launch still sends SIGKILL and returns
  \<open>-1\<close>.
\<close>

lemma loop_stopped:
  "supervision_loop 42 [quiet\<lparr>pre := [StopCall]\<rparr>] running = Some (cancelled\<lparr>calls := [SPoll 100]\<rparr>)"
  by (simp add: loop_iter_def quiet_def cancelled_def running_def initial_def log_def stopJvm_def
      sys_kill_def sys_poll_def)

lemma loop_stop_exited:
  "supervision_loop 42 [quiet\<lparr>pre := [ChildExit 0, StopCall]\<rparr>] running
     = Some (running\<lparr>signal_received := SIGTERM, proc := Zombie (Exited 0),
          calls := [SPoll 100], delivered := [(42, SIGTERM)]\<rparr>)"
  by (simp add: loop_iter_def quiet_def running_def initial_def log_def stopJvm_def
      sys_kill_def sys_poll_def)

theorem cancelled_launch_kills_and_fails_witness:
  "supervision_loop 42 [quiet\<lparr>pre := [StopCall]\<rparr>] running = Some (cancelled\<lparr>calls := [SPoll 100]\<rparr>)
   \<and> signal_received (cancelled\<lparr>calls := [SPoll 100]\<rparr>) = SIGTERM
   \<and> supervise (plain\<lparr>ticks := [quiet\<lparr>pre := [StopCall]\<rparr>],
                          ev_reap := [[], [], [ChildKilled 9]]\<rparr>) 42 running
     = Some (-1, cancelled\<lparr>child_pid := -1, proc := Reaped, rd_open := False,
          calls := [SPoll 100, SClose 0, SKill 42 SIGKILL, SWaitpid 42 True, SUsleep 100000,
                    SWaitpid 42 True, SUsleep 100000, SWaitpid 42 True],
          delivered := [(42, SIGTERM), (42, SIGKILL)]\<rparr>)
   \<and> supervise (plain\<lparr>ticks := [quiet\<lparr>pre := [ChildExit 0, StopCall]\<rparr>]\<rparr>) 42 running
     = Some (-1, running\<lparr>child_pid := -1, signal_received := SIGTERM, proc := Reaped,
          rd_open := False,
          calls := [SPoll 100, SClose 0, SKill 42 SIGKILL, SWaitpid 42 True],
          delivered := [(42, SIGTERM), (42, SIGKILL)]\<rparr>)"
proof -
  let ?env = "plain\<lparr>ticks := [quiet\<lparr>pre := [StopCall]\<rparr>], ev_reap := [[], [], [ChildKilled 9]]\<rparr>"
  let ?s1 = "cancelled\<lparr>calls := [SPoll 100]\<rparr>"
  let ?env2 = "plain\<lparr>ticks := [quiet\<lparr>pre := [ChildExit 0, StopCall]\<rparr>]\<rparr>"
  let ?s2 = "running\<lparr>signal_received := SIGTERM, proc := Zombie (Exited 0),
          calls := [SPoll 100], delivered := [(42, SIGTERM)]\<rparr>"
  have l: "supervision_loop 42 (ticks ?env) running = Some ?s1"
    using loop_stopped by (simp add: plain_def)
  have f: "signal_received ?s1 \<noteq> 0" by (simp add: cancelled_def)
  have l2: "supervision_loop 42 (ticks ?env2) running = Some ?s2"
    using loop_stop_exited by (simp add: plain_def)
  have f2: "signal_received ?s2 \<noteq> 0" by simp
  have r: "supervise ?env 42 running
     = Some (-1, cancelled\<lparr>child_pid := -1, proc := Reaped, rd_open := False,
          calls := [SPoll 100, SClose 0, SKill 42 SIGKILL, SWaitpid 42 True, SUsleep 100000,
                    SWaitpid 42 True, SUsleep 100000, SWaitpid 42 True],
          delivered := [(42, SIGTERM), (42, SIGKILL)]\<rparr>)"
    using loop_stopped
    by (simp add: supervise_def shutdown_def plain_def cancelled_def running_def initial_def
        sys_close_def log_def sys_kill_def reap_loop.simps waitpid_nohang_def)
  have r2: "supervise ?env2 42 running
     = Some (-1, running\<lparr>child_pid := -1, signal_received := SIGTERM, proc := Reaped,
          rd_open := False,
          calls := [SPoll 100, SClose 0, SKill 42 SIGKILL, SWaitpid 42 True],
          delivered := [(42, SIGTERM), (42, SIGKILL)]\<rparr>)"
    using l2
    by (simp add: supervise_def shutdown_def plain_def running_def initial_def sys_close_def
        log_def sys_kill_def reap_loop.simps waitpid_nohang_def)
  from cancelled_launch_kills_and_fails [OF l f] cancelled_launch_kills_and_fails [OF l2 f2]
    loop_stopped r r2
  show ?thesis by (simp add: cancelled_def)
qed

subsection \<open>The loop observes a cancellation before it reads\<close>

lemma signal_event_sets_flag:
  "Signal c \<in> set es \<Longrightarrow> signal_received (apply_events es s) \<noteq> 0"
proof (induction es arbitrary: s)
  case Nil
  then show ?case by simp
next
  case (Cons e es)
  show ?case
  proof (cases "e = Signal c")
    case True
    then have "signal_received (apply_event e s) \<noteq> 0" by (cases c) simp_all
    then show ?thesis by (simp add: apply_events_requested)
  next
    case False
    with Cons.prems have "Signal c \<in> set es" by simp
    then show ?thesis by (simp add: Cons.IH)
  qed
qed

lemma loop_exits_when_requested:
  assumes "signal_received (apply_events (pre t) (log (SPoll 100) s)) \<noteq> 0"
  shows "loop_iter pid t s = Break (apply_events (pre t) (log (SPoll 100) s))"
  using assms by (simp add: loop_iter_def Let_def split: prod.splits)

lemma launch_cancelled_before_loop:
  assumes ok: "fst (setup_signal_handlers env s) = 0" "pipe_ok env"
      "fork_ret env \<noteq> -1" "fork_ret env \<noteq> 0"
    and sig: "Signal c \<in> set (ev_start env) \<or> Signal c \<in> set (ev_fork env)"
    and tk: "ticks env = t # ts"
  shows "\<exists>s' k rest. launchJvm env argv s = Some (-1, s')
           \<and> k \<le> 50 \<and> (rest = [] \<or> rest = [SWaitpid (fork_ret env) True])
           \<and> calls s' = calls s
               @ [SSigaction SIGINT, SSigaction SIGTERM, SSigaction SIGPIPE, SPipe, SFcntl,
                  SFcntl, SFork, SClose 1, SPoll 100, SClose 0, SKill (fork_ret env) SIGKILL]
               @ concat (replicate k [SWaitpid (fork_ret env) True, SUsleep 100000]) @ rest"
proof -
  let ?pid = "fork_ret env"
  let ?s1 = "log (SSigaction SIGPIPE) (log (SSigaction SIGTERM) (log (SSigaction SIGINT) s))"
  let ?s2 = "apply_events (ev_start env)
               ((apply_events (ev_setup env) ?s1)\<lparr>signal_received := 0, child_pid := -1\<rparr>)"
  let ?s3 = "(log SPipe ?s2)\<lparr>pipe_buf := [], writers_open := False, rd_open := True,
               wr_open := True\<rparr>"
  let ?s4 = "(log SFork (log SFcntl (log SFcntl ?s3)))\<lparr>kpid := ?pid, proc := Alive,
               child_prog := Some (child_side argv), writers_open := True\<rparr>"
  let ?s5 = "sys_close 1 ((apply_events (ev_fork env) ?s4)\<lparr>child_pid := ?pid\<rparr>)"
  let ?s6 = "apply_events (pre t) (log (SPoll 100) ?s5)"
  from ok(1) have st: "setup_signal_handlers env s = (0, ?s1)"
    by (simp add: setup_signal_handlers_def Let_def split: if_splits)
  have launch: "launchJvm env argv s = supervise env ?pid ?s5"
    using ok(2-4) by (simp add: launchJvm_def st sys_pipe_def sys_fork_def Let_def)
  have "signal_received ?s5 \<noteq> 0"
  proof (cases "Signal c \<in> set (ev_fork env)")
    case True
    then show ?thesis by (simp add: signal_event_sets_flag)
  next
    case False
    with sig have "Signal c \<in> set (ev_start env)" by simp
    then have "signal_received ?s2 \<noteq> 0" by (rule signal_event_sets_flag)
    then have "signal_received ?s4 \<noteq> 0" by simp
    then show ?thesis by (simp add: apply_events_requested)
  qed
  then have flag: "signal_received ?s6 \<noteq> 0"
    by (simp add: apply_events_requested)
  then have "supervision_loop ?pid (ticks env) ?s5 = Some ?s6"
    by (simp add: tk loop_exits_when_requested)
  then have sup: "supervise env ?pid ?s5 = shutdown env ?pid ?s6"
    by (simp add: supervise_def)
  from shutdown_after_cancel [OF flag, of env ?pid]
  obtain s' k rest where sh: "shutdown env ?pid ?s6 = Some (-1, s')" and k: "k \<le> 50"
    and rest: "rest = [] \<or> rest = [SWaitpid ?pid True]"
    and tr: "calls s' = calls ?s6 @ [SClose 0, SKill ?pid SIGKILL]
              @ concat (replicate k [SWaitpid ?pid True, SUsleep 100000]) @ rest"
    by blast
  have 1: "launchJvm env argv s = Some (-1, s')"
    unfolding launch sup by (rule sh)
  have 2: "calls s' = calls s
               @ [SSigaction SIGINT, SSigaction SIGTERM, SSigaction SIGPIPE, SPipe, SFcntl,
                  SFcntl, SFork, SClose 1, SPoll 100, SClose 0, SKill ?pid SIGKILL]
               @ concat (replicate k [SWaitpid ?pid True, SUsleep 100000]) @ rest"
    using tr by simp
  from 1 2 k rest show ?thesis by blast
qed

lemma signals_without_child:
  "list_all is_signal es \<Longrightarrow> child_pid s \<le> 0 \<Longrightarrow>
     \<exists>y. apply_events es s = s\<lparr>signal_received := y\<rparr>"
proof (induction es arbitrary: s)
  case Nil
  then show ?case by (intro exI [of _ "signal_received s"]) simp
next
  case (Cons e es)
  from Cons.prems obtain c where e: "e = Signal c" by (cases e) simp_all
  with Cons.prems have 1: "apply_event e s = s\<lparr>signal_received := signo c\<rparr>"
    by (simp add: signal_handler_def)
  from Cons.prems have "list_all is_signal es" "child_pid (s\<lparr>signal_received := signo c\<rparr>) \<le> 0"
    by simp_all
  from Cons.IH [OF this] obtain y where
    "apply_events es (s\<lparr>signal_received := signo c\<rparr>) = s\<lparr>signal_received := signo c, signal_received := y\<rparr>"
    by (elim exE) (rule that)
  with 1 show ?case by (intro exI [of _ y]) simp
qed

lemma signals_before_reset_discarded:
  assumes "fst (setup_signal_handlers env s) = 0" and "child_pid s \<le> 0"
    and "list_all is_signal (ev_setup env)"
  shows "launchJvm env argv s = launchJvm (env\<lparr>ev_setup := []\<rparr>) argv s"
proof -
  let ?s1 = "log (SSigaction SIGPIPE) (log (SSigaction SIGTERM) (log (SSigaction SIGINT) s))"
  from assms(1) have st: "setup_signal_handlers env s = (0, ?s1)"
    by (simp add: setup_signal_handlers_def Let_def split: if_splits)
  from assms(1) have st': "setup_signal_handlers (env\<lparr>ev_setup := []\<rparr>) s = (0, ?s1)"
    by (simp add: setup_signal_handlers_def Let_def split: if_splits)
  from assms(2) have "child_pid ?s1 \<le> 0" by simp
  from signals_without_child [OF assms(3) this]
  obtain y where "apply_events (ev_setup env) ?s1 = ?s1\<lparr>signal_received := y\<rparr>"
    by (elim exE) (rule that)
  then have r: "(apply_events (ev_setup env) ?s1)\<lparr>signal_received := 0, child_pid := -1\<rparr>
      = ?s1\<lparr>signal_received := 0, child_pid := -1\<rparr>"
    by simp
  have sh: "shutdown (env\<lparr>ev_setup := []\<rparr>) pid s' = shutdown env pid s'" for pid s'
    by (simp add: shutdown_def Let_def split: prod.splits option.splits)
  have sup: "supervise (env\<lparr>ev_setup := []\<rparr>) pid s' = supervise env pid s'" for pid s'
    by (simp add: supervise_def sh split: option.splits)
  show ?thesis
    by (simp add: launchJvm_def st st' r sup sys_pipe_def sys_fork_def Let_def
        split: prod.splits)
qed

text \<open>
  Claim C7, as stated, fails: a cancellation before the first iteration of the loop is
  not always observed. A SIGINT that the handler catches after its installation (line 69)
  and before the reset of the flag (line 74) is wiped by the reset: the launch of
  \<open>/bin/echo hello\<close> reads and forwards the output and returns 0, with no SIGKILL.
\<close>

theorem signal_before_reset_lost_counterexample:
  "launchJvm lost_signal [''/bin/echo'', ''hello''] initial
     = Some (0, initial\<lparr>kpid := 42, proc := Reaped,
          child_prog := Some (Execvp (Some ''/bin/echo'') [''/bin/echo'', ''hello'']),
          out := ''hello'',
          calls := [SSigaction SIGINT, SSigaction SIGTERM, SSigaction SIGPIPE, SPipe, SFcntl,
            SFcntl, SFork, SClose 1, SPoll 100, SRead 1024, SWrite ''hello'', SClose 0,
            SWaitpid 42 False]\<rparr>)"
  by (simp add: launchJvm_def lost_signal_def plain_def quiet_def initial_def
        setup_signal_handlers_def log_def sys_pipe_def sys_fork_def child_side_def sys_close_def
        signal_handler_def supervise_def
        loop_iter_def sys_poll_def forward_def sys_read_def sys_write_def hangup_check_def
        shutdown_def waitpid_block_def)

text \<open>
  Claim C7, amended. If \<open>signal_received\<close> is set when \<open>poll\<close> returns, whatever
  \<open>poll\<close> returned (a failure with \<open>EINTR\<close> included), the iteration ends the loop in
  that state: the only system call of the iteration is the \<open>poll\<close>, so nothing is read.
  A flag that is set when the loop is entered is still set when the first \<open>poll\<close>
  returns, so the loop ends in its first iteration. A signal that arrives in a launch
  after the reset of the flag and before the loop ends the launch after a single
  \<open>poll\<close> and without a \<open>read\<close>: the launch kills the child and returns \<open>-1\<close>.
  Signals caught before the reset, with no child active, are discarded: the launch runs
  as if they had not arrived.
\<close>

theorem cancellation_seen_before_read:
  "(signal_received (apply_events (pre t) (log (SPoll 100) s)) \<noteq> 0 \<longrightarrow>
      loop_iter pid t s = Break (apply_events (pre t) (log (SPoll 100) s))
      \<and> calls (apply_events (pre t) (log (SPoll 100) s)) = calls s @ [SPoll 100])
   \<and> (signal_received s \<noteq> 0 \<longrightarrow>
      supervision_loop pid (t # ts) s = Some (apply_events (pre t) (log (SPoll 100) s)))
   \<and> (fst (setup_signal_handlers env s) = 0 \<and> pipe_ok env
        \<and> fork_ret env \<noteq> -1 \<and> fork_ret env \<noteq> 0
        \<and> (Signal c \<in> set (ev_start env) \<or> Signal c \<in> set (ev_fork env))
        \<and> ticks env = t # ts \<longrightarrow>
      (\<exists>s' k rest. launchJvm env argv s = Some (-1, s')
           \<and> k \<le> 50 \<and> (rest = [] \<or> rest = [SWaitpid (fork_ret env) True])
           \<and> calls s' = calls s
               @ [SSigaction SIGINT, SSigaction SIGTERM, SSigaction SIGPIPE, SPipe, SFcntl,
                  SFcntl, SFork, SClose 1, SPoll 100, SClose 0, SKill (fork_ret env) SIGKILL]
               @ concat (replicate k [SWaitpid (fork_ret env) True, SUsleep 100000]) @ rest))
   \<and> (fst (setup_signal_handlers env s) = 0 \<and> child_pid s \<le> 0
        \<and> list_all is_signal (ev_setup env) \<longrightarrow>
      launchJvm env argv s = launchJvm (env\<lparr>ev_setup := []\<rparr>) argv s)"
proof -
  let ?s1 = "apply_events (pre t) (log (SPoll 100) s)"
  have a: "loop_iter pid t s = Break ?s1" if "signal_received ?s1 \<noteq> 0"
    using that by (rule loop_exits_when_requested)
  have b: "signal_received ?s1 \<noteq> 0" if "signal_received s \<noteq> 0"
    using that by (simp add: apply_events_requested)
  from a b launch_cancelled_before_loop [of env s c t ts argv]
    signals_before_reset_discarded [of env s argv]
  show ?thesis
    by simp
qed

text \<open>
  A signal that interrupts the first \<open>poll\<close> while a byte is waiting in the pipe; a
  loop entered with the flag set (the byte stays in the pipe); a launch in which SIGTERM
  arrives between \<open>fork\<close> and the assignment to \<open>child_pid\<close>; a launch in which
  SIGINT arrives before the reset.
\<close>

theorem cancellation_seen_before_read_witness:
  "loop_iter 42 (quiet\<lparr>pre := [PipeWrite ''x'', Signal Interrupt], poll_err := Some EINTR\<rparr>) running
     = Break (running\<lparr>signal_received := SIGINT, pipe_buf := ''x'', calls := [SPoll 100],
          delivered := [(42, SIGTERM)]\<rparr>)
   \<and> supervision_loop 42 [quiet\<lparr>pre := [PipeWrite ''x'']\<rparr>, quiet] cancelled
     = Some (cancelled\<lparr>pipe_buf := ''x'', calls := [SPoll 100]\<rparr>)
   \<and> launchJvm signal_before_loop [''java''] initial
     = Some (-1, initial\<lparr>signal_received := SIGTERM, kpid := 42, proc := Reaped,
          child_prog := Some (Execvp (Some ''java'') [''java'']), writers_open := True,
          calls := [SSigaction SIGINT, SSigaction SIGTERM, SSigaction SIGPIPE, SPipe, SFcntl,
            SFcntl, SFork, SClose 1, SPoll 100, SClose 0, SKill 42 SIGKILL, SWaitpid 42 True],
          delivered := [(42, SIGKILL)]\<rparr>)
   \<and> launchJvm lost_signal [''/bin/echo'', ''hello''] initial
     = launchJvm (lost_signal\<lparr>ev_setup := []\<rparr>) [''/bin/echo'', ''hello''] initial"
proof -
  let ?t = "quiet\<lparr>pre := [PipeWrite ''x'', Signal Interrupt], poll_err := Some EINTR\<rparr>"
  let ?u = "quiet\<lparr>pre := [PipeWrite ''x'']\<rparr>"
  have 1: "apply_events (pre ?t) (log (SPoll 100) running)
      = running\<lparr>signal_received := SIGINT, pipe_buf := ''x'', calls := [SPoll 100],
          delivered := [(42, SIGTERM)]\<rparr>"
    by (simp add: quiet_def running_def initial_def log_def signal_handler_def sys_kill_def)
  have 2: "apply_events (pre ?u) (log (SPoll 100) cancelled)
      = cancelled\<lparr>pipe_buf := ''x'', calls := [SPoll 100]\<rparr>"
    by (simp add: quiet_def cancelled_def running_def initial_def log_def)
  have 3: "signal_received cancelled \<noteq> 0"
    by (simp add: cancelled_def)
  have 4: "fst (setup_signal_handlers signal_before_loop initial) = 0 \<and> pipe_ok signal_before_loop
        \<and> fork_ret signal_before_loop \<noteq> -1 \<and> fork_ret signal_before_loop \<noteq> 0
        \<and> (Signal Terminate \<in> set (ev_start signal_before_loop)
            \<or> Signal Terminate \<in> set (ev_fork signal_before_loop))
        \<and> ticks signal_before_loop = quiet # []"
    by (simp add: signal_before_loop_def plain_def setup_signal_handlers_def)
  have 5: "launchJvm signal_before_loop [''java''] initial
     = Some (-1, initial\<lparr>signal_received := SIGTERM, kpid := 42, proc := Reaped,
          child_prog := Some (Execvp (Some ''java'') [''java'']), writers_open := True,
          calls := [SSigaction SIGINT, SSigaction SIGTERM, SSigaction SIGPIPE, SPipe, SFcntl,
            SFcntl, SFork, SClose 1, SPoll 100, SClose 0, SKill 42 SIGKILL, SWaitpid 42 True],
          delivered := [(42, SIGKILL)]\<rparr>)"
    by (simp add: launchJvm_def signal_before_loop_def plain_def quiet_def initial_def
        setup_signal_handlers_def log_def sys_pipe_def sys_fork_def child_side_def
        sys_close_def signal_handler_def supervise_def loop_iter_def shutdown_def
        sys_kill_def reap_loop.simps waitpid_nohang_def)
  have 6: "fst (setup_signal_handlers lost_signal initial) = 0 \<and> child_pid initial \<le> 0
        \<and> list_all is_signal (ev_setup lost_signal)"
    by (simp add: lost_signal_def plain_def setup_signal_handlers_def initial_def)
  from cancellation_seen_before_read [where env = lost_signal and s = initial
      and argv = "[''/bin/echo'', ''hello'']"] 6
  have 7: "launchJvm lost_signal [''/bin/echo'', ''hello''] initial
     = launchJvm (lost_signal\<lparr>ev_setup := []\<rparr>) [''/bin/echo'', ''hello''] initial"
    by simp
  from cancellation_seen_before_read [of ?t running 42 "[]"]
    cancellation_seen_before_read [of ?u cancelled 42 "[quiet]"]
    cancellation_seen_before_read [where env = signal_before_loop and s = initial
      and c = Terminate and t = quiet and ts = "[]" and argv = "[''java'']"]
    1 2 3 4 5 7
  show ?thesis by simp
qed

subsection \<open>The child identifier on return\<close>

lemma setup_signal_handlers_fields [simp]:
  "child_pid (snd (setup_signal_handlers env s)) = child_pid s"
  "signal_received (snd (setup_signal_handlers env s)) = signal_received s"
  "kpid (snd (setup_signal_handlers env s)) = kpid s"
  "proc (snd (setup_signal_handlers env s)) = proc s"
  "child_prog (snd (setup_signal_handlers env s)) = child_prog s"
  "rd_open (snd (setup_signal_handlers env s)) = rd_open s"
  "wr_open (snd (setup_signal_handlers env s)) = wr_open s"
  "out (snd (setup_signal_handlers env s)) = out s"
  by (simp_all add: setup_signal_handlers_def Let_def)

lemma apply_event_proc:
  "proc s \<noteq> Alive \<Longrightarrow> proc (apply_event e s) = proc s"
  by (cases e) simp_all

lemma apply_events_proc:
  "proc s \<noteq> Alive \<Longrightarrow> proc (apply_events es s) = proc s"
  by (induction es arbitrary: s) (simp_all add: apply_event_proc)




subsection \<open>Failure before a child exists\<close>

text \<open>
  Claim C6. When the handlers are installed and then \<open>pipe\<close> or \<open>fork\<close> fails,
  \<open>launchJvm\<close> returns \<open>-1\<close> with \<open>child_pid\<close> at \<open>-1\<close> and with no child in the
  process table that was not there before. After a failed \<open>fork\<close> both descriptors of
  the pipe are closed; after a failed \<open>pipe\<close> none was opened.
\<close>

theorem spawn_failure_leaves_nothing:
  assumes "fst (setup_signal_handlers env s) = 0"
    and "\<not> pipe_ok env \<or> fork_ret env = -1"
  shows "\<exists>s'. launchJvm env argv s = Some (-1, s')
           \<and> child_pid s' = -1
           \<and> kpid s' = kpid s \<and> child_prog s' = child_prog s
           \<and> (proc s \<noteq> Alive \<longrightarrow> proc s' = proc s)
           \<and> (if pipe_ok env then \<not> rd_open s' \<and> \<not> wr_open s'
               else rd_open s' = rd_open s \<and> wr_open s' = wr_open s)"
proof -
  obtain r s1 where st: "setup_signal_handlers env s = (r, s1)"
    by (cases "setup_signal_handlers env s")
  with assms(1) have r: "r = 0" by simp
  from st have f: "child_pid s1 = child_pid s" "kpid s1 = kpid s" "child_prog s1 = child_prog s"
    "proc s1 = proc s" "rd_open s1 = rd_open s" "wr_open s1 = wr_open s"
    using setup_signal_handlers_fields [of env s] by simp_all
  let ?s2 = "apply_events (ev_start env)
               ((apply_events (ev_setup env) s1)\<lparr>signal_received := 0, child_pid := -1\<rparr>)"
  have p: "proc s \<noteq> Alive \<longrightarrow> proc ?s2 = proc s"
    using f apply_events_proc [of s1 "ev_setup env"]
      apply_events_proc [of "(apply_events (ev_setup env) s1)\<lparr>signal_received := 0, child_pid := -1\<rparr>"
        "ev_start env"]
    by simp
  show ?thesis
  proof (cases "pipe_ok env")
    case False
    then have "launchJvm env argv s = Some (-1, log SPipe ?s2)"
      using st r by (simp add: launchJvm_def sys_pipe_def Let_def)
    with False f p show ?thesis by simp
  next
    case True
    with assms(2) have fk: "fork_ret env = -1" by simp
    let ?s3 = "?s2\<lparr>pipe_buf := [], writers_open := False, rd_open := True, wr_open := True\<rparr>"
    let ?s' = "sys_close 1 (sys_close 0 (log SFork (log SFcntl (log SFcntl (log SPipe ?s3)))))"
    have "launchJvm env argv s = Some (-1, ?s')"
      using st r True fk by (simp add: launchJvm_def sys_pipe_def sys_fork_def Let_def log_def)
    with True f p show ?thesis
      by (simp add: sys_close_def)
  qed
qed

text \<open>A launch in which \<open>pipe\<close> fails, and one in which \<open>fork\<close> fails.\<close>

theorem spawn_failure_leaves_nothing_witness:
  "launchJvm (plain\<lparr>pipe_ok := False\<rparr>) [''java''] initial
     = Some (-1, initial\<lparr>calls := [SSigaction SIGINT, SSigaction SIGTERM, SSigaction SIGPIPE,
                                       SPipe]\<rparr>)
   \<and> launchJvm (plain\<lparr>fork_ret := -1\<rparr>) [''java''] initial
     = Some (-1, initial\<lparr>calls := [SSigaction SIGINT, SSigaction SIGTERM, SSigaction SIGPIPE,
                                       SPipe, SFcntl, SFcntl, SFork, SClose 0, SClose 1]\<rparr>)"
proof -
  have a: "fst (setup_signal_handlers (plain\<lparr>pipe_ok := False\<rparr>) initial) = 0"
    "fst (setup_signal_handlers (plain\<lparr>fork_ret := -1\<rparr>) initial) = 0"
    by (simp_all add: setup_signal_handlers_def plain_def)
  have b: "\<not> pipe_ok (plain\<lparr>pipe_ok := False\<rparr>) \<or> fork_ret (plain\<lparr>pipe_ok := False\<rparr>) = -1"
    "\<not> pipe_ok (plain\<lparr>fork_ret := -1\<rparr>) \<or> fork_ret (plain\<lparr>fork_ret := -1\<rparr>) = -1"
    by simp_all
  have c: "launchJvm (plain\<lparr>pipe_ok := False\<rparr>) [''java''] initial
     = Some (-1, initial\<lparr>calls := [SSigaction SIGINT, SSigaction SIGTERM, SSigaction SIGPIPE,
                                       SPipe]\<rparr>)"
    by (simp add: launchJvm_def plain_def initial_def setup_signal_handlers_def log_def
        sys_pipe_def)
  have d: "launchJvm (plain\<lparr>fork_ret := -1\<rparr>) [''java''] initial
     = Some (-1, initial\<lparr>calls := [SSigaction SIGINT, SSigaction SIGTERM, SSigaction SIGPIPE,
                                       SPipe, SFcntl, SFcntl, SFork, SClose 0, SClose 1]\<rparr>)"
    by (simp add: launchJvm_def plain_def initial_def setup_signal_handlers_def log_def
        sys_pipe_def sys_fork_def sys_close_def)
  from spawn_failure_leaves_nothing [OF a(1) b(1), of "[''java'']"]
    spawn_failure_leaves_nothing [OF a(2) b(2), of "[''java'']"] c d
  show ?thesis by simp
qed

subsection \<open>The cancellation flag\<close>

lemma sys_read_flag [simp]:
  "signal_received (snd (snd (snd (sys_read t s)))) = signal_received s"
  by (simp add: sys_read_def Let_def split: option.splits)

lemma sys_write_flag [simp]:
  "signal_received (snd (snd (sys_write t b s))) = signal_received s"
  by (simp add: sys_write_def Let_def split: write_result.splits)

lemma forward_flag [simp]:
  "signal_received (ctl_state (forward t rv s)) = signal_received s"
proof -
  obtain n e b s1 where r: "sys_read t s = (n, e, b, s1)"
    by (cases "sys_read t s") auto
  obtain w we s2 where w: "sys_write t b s1 = (w, we, s2)"
    by (cases "sys_write t b s1") auto
  from r have 1: "signal_received s1 = signal_received s"
    using sys_read_flag [of t s] by simp
  from w have 2: "signal_received s2 = signal_received s1"
    using sys_write_flag [of t b s1] by simp
  show ?thesis
    by (simp add: forward_def hangup_check_def r w 1 2)
qed












subsection \<open>Write failures in the loop\<close>

lemma apply_event_pipe_nonempty:
  "pipe_buf s \<noteq> [] \<Longrightarrow> pipe_buf (apply_event e s) \<noteq> []"
  by (cases e) simp_all

lemma apply_events_pipe_nonempty:
  "pipe_buf s \<noteq> [] \<Longrightarrow> pipe_buf (apply_events es s) \<noteq> []"
  by (induction es arbitrary: s) (simp_all add: apply_event_pipe_nonempty)

text \<open>
  Claim C5, as stated, fails: a \<open>write\<close> that fails with \<open>EIO\<close> while the writer is
  still there lets the loop go on to its next iteration.
\<close>

theorem write_error_loop_continues_counterexample:
  "loop_iter 42 (quiet\<lparr>write_res := WriteFailed EIO\<rparr>) (running\<lparr>pipe_buf := ''x''\<rparr>)
     = Continue (running\<lparr>calls := [SPoll 100, SRead 1024, SWrite ''x'']\<rparr>)"
  by (simp add: loop_iter_def quiet_def running_def initial_def log_def sys_poll_def
      forward_def sys_read_def sys_write_def hangup_check_def)

text \<open>
  Claim C5, amended. In an iteration that reads bytes from the pipe and whose \<open>write\<close>
  fails, the loop ends when the error is \<open>EPIPE\<close>. With any other error the bytes
  read are dropped (they have left the pipe and have not reached the output) and the
  iteration goes on to its last test: the loop ends if \<open>poll\<close> had reported an error
  or a hang-up, and continues otherwise.
\<close>

theorem only_epipe_write_failure_ends_loop:
  assumes "signal_received (apply_events (pre t) (log (SPoll 100) s)) = 0"
    and "poll_err t = None"
    and "pipe_buf (apply_events (pre t) (log (SPoll 100) s)) \<noteq> []"
    and "read_err t = None"
    and "write_res t = WriteFailed e"
  shows "\<exists>s'. loop_iter pid t s =
             (if e = EPIPE then Break s'
              else if err_bit t
                      \<or> (\<not> writers_open (apply_events (pre t) (log (SPoll 100) s))
                          \<and> \<not> wr_open s)
                   then Break s'
                   else Continue s')
           \<and> out s' = out s
           \<and> pipe_buf s'
               = drop 1024 (pipe_buf (apply_events (mid t) (apply_events (pre t) (log (SPoll 100) s))))"
proof -
  let ?s1 = "apply_events (pre t) (log (SPoll 100) s)"
  let ?s2 = "apply_events (mid t) ?s1"
  let ?rv = "\<lparr>POLLIN = True, POLLERR = err_bit t,
              POLLHUP = (\<not> writers_open ?s1 \<and> \<not> wr_open s)\<rparr>"
  let ?buf = "take 1024 (pipe_buf ?s2)"
  let ?s3 = "(log (SRead 1024) ?s2)\<lparr>pipe_buf := drop 1024 (pipe_buf ?s2)\<rparr>"
  let ?s' = "log (SWrite ?buf) ?s3"
  from assms(3) have ne: "pipe_buf ?s2 \<noteq> []"
    by (rule apply_events_pipe_nonempty)
  from assms(2,3) have poll: "sys_poll t ?s1 = (1, 0, ?rv)"
    by (simp add: sys_poll_def)
  from assms(4) ne have rd: "sys_read t ?s2 = (int (length ?buf), 0, ?buf, ?s3)"
    by (simp add: sys_read_def Let_def)
  from ne have pos: "0 < int (length ?buf)" by simp
  from assms(5) have wr: "sys_write t ?buf ?s3 = (-1, e, ?s')"
    by (simp add: sys_write_def Let_def)
  have fw: "forward t ?rv ?s2 = (if e = EPIPE then Break ?s' else hangup_check ?rv ?s')"
    using pos by (simp add: forward_def rd wr del: length_take)
  have "loop_iter pid t s = forward t ?rv ?s2"
    using assms(1) by (simp add: loop_iter_def Let_def poll)
  with fw have "loop_iter pid t s =
             (if e = EPIPE then Break ?s'
              else if err_bit t \<or> (\<not> writers_open ?s1 \<and> \<not> wr_open s) then Break ?s'
                   else Continue ?s')"
    by (simp add: hangup_check_def)
  moreover have "out ?s' = out s" by (simp add: log_def)
  moreover have "pipe_buf ?s' = drop 1024 (pipe_buf ?s2)" by (simp add: log_def)
  ultimately show ?thesis by blast
qed

text \<open>The same iteration as above, with \<open>EPIPE\<close>: the loop ends.\<close>

theorem only_epipe_write_failure_ends_loop_witness:
  "loop_iter 42 (quiet\<lparr>write_res := WriteFailed EPIPE\<rparr>) (running\<lparr>pipe_buf := ''x''\<rparr>)
     = Break (running\<lparr>calls := [SPoll 100, SRead 1024, SWrite ''x'']\<rparr>)"
proof -
  let ?t = "quiet\<lparr>write_res := WriteFailed EPIPE\<rparr>"
  let ?s = "running\<lparr>pipe_buf := ''x''\<rparr>"
  have s1: "apply_events (pre ?t) (log (SPoll 100) ?s) = ?s\<lparr>calls := [SPoll 100]\<rparr>"
    by (simp add: quiet_def log_def running_def initial_def)
  have h: "signal_received (apply_events (pre ?t) (log (SPoll 100) ?s)) = 0"
    "poll_err ?t = None"
    "pipe_buf (apply_events (pre ?t) (log (SPoll 100) ?s)) \<noteq> []"
    "read_err ?t = None"
    "write_res ?t = WriteFailed EPIPE"
    by (simp_all add: s1) (simp_all add: quiet_def running_def initial_def)
  have "loop_iter 42 ?t ?s = Break (running\<lparr>calls := [SPoll 100, SRead 1024, SWrite ''x'']\<rparr>)"
    by (simp add: loop_iter_def quiet_def running_def initial_def log_def sys_poll_def
      forward_def sys_read_def sys_write_def hangup_check_def)
  with only_epipe_write_failure_ends_loop [OF h, of 42] show ?thesis by simp
qed

subsection \<open>The exit status after a reap in the loop\<close>

text \<open>
  When the loop has reaped the child, nothing is left for the \<open>waitpid\<close> after the
  loop: the launch returns \<open>-1\<close>, whatever the child's exit code was.
\<close>

lemma shutdown_after_reap_fails:
  assumes "proc s = Reaped"
  shows "\<exists>s'. shutdown env pid s = Some (-1, s')"
proof -
  let ?s1 = "apply_events (ev_close env) (sys_close 0 s)"
  let ?s2 = "apply_events (ev_block env) (log (SWaitpid pid False) ?s1)"
  from assms have "proc ?s1 = Reaped"
    by (simp add: apply_events_proc)
  then have "proc ?s2 = Reaped"
    by (simp add: apply_events_proc)
  then have "waitpid_block pid ?s2 = Some (-1, None, ?s2)"
    by (cases "pid = kpid ?s2") (simp_all add: waitpid_block_def)
  then show ?thesis
    by (simp add: shutdown_def Let_def split: prod.splits)
qed

text \<open>
  Claim C1 says that a launch whose child terminates normally returns the child's exit
  status, also when the loop ended because its \<open>waitpid(WNOHANG)\<close> found the child
  terminated. The code does not: that \<open>waitpid\<close> reaps the child and its status is
  dropped, the blocking \<open>waitpid\<close> after the loop fails, and the launch of a child
  that exits with code 7 returns \<open>-1\<close>.
\<close>

theorem poll_branch_reap_loses_exit_status:
  "launchJvm exit_held_open [''/bin/sh'', ''-c'', ''sleep 1000 & exit 7''] initial
     = Some (-1, initial\<lparr>kpid := 42, proc := Reaped,
          child_prog := Some (Execvp (Some ''/bin/sh'')
                                [''/bin/sh'', ''-c'', ''sleep 1000 & exit 7'']),
          writers_open := True,
          calls := [SSigaction SIGINT, SSigaction SIGTERM, SSigaction SIGPIPE, SPipe, SFcntl,
            SFcntl, SFork, SClose 1, SPoll 100, SWaitpid 42 True, SClose 0,
            SWaitpid 42 False]\<rparr>)"
  by (simp add: launchJvm_def exit_held_open_def plain_def quiet_def initial_def
      setup_signal_handlers_def log_def sys_pipe_def sys_fork_def child_side_def sys_close_def
      supervise_def loop_iter_def sys_poll_def waitpid_nohang_def shutdown_def
      waitpid_block_def)

subsection \<open>Bytes left in the pipe at a hang-up\<close>

text \<open>
  Claim C2 says that every byte the child wrote before it exited reaches the output, also
  the bytes still in the pipe when \<open>poll\<close> reports a hang-up. The code does not
  deliver them: of 1025 bytes in the pipe at the hang-up it reads and forwards 1024 and
  leaves the loop; the last byte is still in the pipe when the read end is closed, and
  the launch returns the exit code 0.
\<close>

theorem hangup_drops_buffered_bytes:
  "map_option (\<lambda>(r, s'). (r, out s', pipe_buf s'))
     (launchJvm big_output [''/bin/cat'', ''big.txt''] initial)
     = Some (0, replicate 1024 CHR ''a'', ''a'')"
  by (simp add: launchJvm_def big_output_def plain_def quiet_def initial_def
      setup_signal_handlers_def log_def sys_pipe_def sys_fork_def child_side_def sys_close_def
      supervise_def loop_iter_def sys_poll_def forward_def sys_read_def sys_write_def
      hangup_check_def shutdown_def waitpid_block_def)

end
